theory Spec2Isabelle
  imports Complex_Main
begin

section \<open>Arrays, errors and loops\<close>

text \<open>
  The observation builder of \<^verbatim>\<open>training/obs.py\<close> works on numpy arrays of floats.
  Floats are idealised as reals (no rounding, no NaN, no signed zero); the comparisons
  \<^verbatim>\<open>== 0\<close>, \<^verbatim>\<open>== 1\<close>, \<^verbatim>\<open>!= 0\<close> and \<^verbatim>\<open>> 0\<close> of the source are the
  comparisons of the reals.  Every exception the source can raise is a value.
\<close>

datatype error = IndexError | ValueError | ZeroDivisionError | TypeError

definition bind_r :: "error + 'a \<Rightarrow> ('a \<Rightarrow> error + 'b) \<Rightarrow> error + 'b" where
  "bind_r m f = (case m of Inl e \<Rightarrow> Inl e | Inr x \<Rightarrow> f x)"

text \<open>
  A two-dimensional array: its rows, and \<^verbatim>\<open>shape[1]\<close>, which a numpy array has
  also when it has no rows.
\<close>

record ndarray2 =
  shape1 :: nat
  rows :: "real list list"

definition shape0 :: "ndarray2 \<Rightarrow> nat" where
  "shape0 a = length (rows a)"

definition rect :: "ndarray2 \<Rightarrow> bool" where
  "rect a = list_all (\<lambda>r. length r = shape1 a) (rows a)"

definition zeros2 :: "nat \<Rightarrow> nat \<Rightarrow> ndarray2" where
  "zeros2 n m = \<lparr>shape1 = m, rows = replicate n (replicate m 0)\<rparr>"

text \<open>
  \<^verbatim>\<open>_update_timers\<close> is compiled by numba (\<^verbatim>\<open>@njit\<close>).  Compiled code does not
  check array bounds unless bounds checking is switched on: an index outside the array
  then reads whatever lies in memory there, while with bounds checking (and in plain
  Python) it raises IndexError.  Both are modelled: \<open>Checked\<close> raises, and
  \<open>Unchecked g\<close> reads \<open>g name i j\<close>, an arbitrary content of the memory beyond the
  array called \<open>name\<close>.
\<close>

datatype arr = BoostStates | DemoStates | BoostTimers | DemoTimers

datatype bounds = Checked | Unchecked "arr \<Rightarrow> nat \<Rightarrow> nat \<Rightarrow> real"

definition in_bounds :: "ndarray2 \<Rightarrow> nat \<Rightarrow> nat \<Rightarrow> bool" where
  "in_bounds a i j = (i < length (rows a) \<and> j < length (rows a ! i))"

definition getitem2 :: "bounds \<Rightarrow> arr \<Rightarrow> ndarray2 \<Rightarrow> nat \<Rightarrow> nat \<Rightarrow> error + real" where
  "getitem2 pol name a i j =
     (if in_bounds a i j then Inr (rows a ! i ! j)
      else (case pol of Checked \<Rightarrow> Inl IndexError | Unchecked g \<Rightarrow> Inr (g name i j)))"

text \<open>A store \<^verbatim>\<open>a[i, j] = v\<close>; the source makes none outside the array it allocated.\<close>

definition setitem2 :: "ndarray2 \<Rightarrow> nat \<Rightarrow> nat \<Rightarrow> real \<Rightarrow> error + ndarray2" where
  "setitem2 a i j v =
     (if in_bounds a i j then Inr (a\<lparr>rows := (rows a)[i := (rows a ! i)[j := v]]\<rparr>)
      else Inl IndexError)"

text \<open>
  \<^verbatim>\<open>a[0, :] = src\<close>: the source row must have the width of the array, or one element,
  which numpy broadcasts.
\<close>

definition setrow0 :: "ndarray2 \<Rightarrow> real list \<Rightarrow> error + ndarray2" where
  "setrow0 a src =
     (if rows a = [] then Inl IndexError
      else if length src = shape1 a then Inr (a\<lparr>rows := (rows a)[0 := src]\<rparr>)
      else if length src = 1 then Inr (a\<lparr>rows := (rows a)[0 := replicate (shape1 a) (hd src)]\<rparr>)
      else Inl ValueError)"

text \<open>\<^verbatim>\<open>for x in xs: s = body(x, s)\<close>, stopping at the first exception.\<close>

fun for_each :: "nat list \<Rightarrow> (nat \<Rightarrow> 's \<Rightarrow> error + 's) \<Rightarrow> 's \<Rightarrow> error + 's" where
  "for_each [] body s = Inr s"
| "for_each (x # xs) body s = bind_r (body x s) (for_each xs body)"

section \<open>The timer simulator\<close>

text \<open>
  \<^verbatim>\<open>NectoObsBuilder._update_timers\<close>.  The timer matrices have one row more than the
  state arrays: row 0 holds the carried timers, rows 1 to T are computed, and rows 1 to T
  are returned.  \<^verbatim>\<open>BOOST_LOCATIONS\<close>, the table of the pad positions, is a constant of
  rlgym and not part of the repository: it is a parameter, a function from the pad index to
  the position, of which the code reads the height.  The body of the boost loop at
  \<open>(i, b)\<close>:
\<close>

type_synonym locations = "nat \<Rightarrow> real \<times> real \<times> real"

definition loc_z :: "locations \<Rightarrow> nat \<Rightarrow> real" where
  "loc_z locs b = snd (snd (locs b))"

definition boost_cell ::
  "bounds \<Rightarrow> locations \<Rightarrow> int \<Rightarrow> ndarray2 \<Rightarrow> nat \<Rightarrow> nat \<Rightarrow> ndarray2 \<Rightarrow> error + ndarray2" where
  "boost_cell pol self_boost_locations self_tick_skip boost_states i b boost_timers =
     bind_r (getitem2 pol BoostStates boost_states i b) (\<lambda>s.
       if s = 0 then
         (if loc_z self_boost_locations b > 72 then setitem2 boost_timers i b 10
          else setitem2 boost_timers i b 4)
       else if 0 \<le> int i - 1 then
         bind_r (getitem2 pol BoostTimers boost_timers (i - 1) b) (\<lambda>prev.
           if prev > 0
           then setitem2 boost_timers i b (max 0 (prev - real_of_int self_tick_skip / 120))
           else Inr boost_timers)
       else Inr boost_timers)"

definition demo_cell ::
  "bounds \<Rightarrow> int \<Rightarrow> ndarray2 \<Rightarrow> nat \<Rightarrow> nat \<Rightarrow> ndarray2 \<Rightarrow> error + ndarray2" where
  "demo_cell pol self_tick_skip demo_states i b demo_timers =
     bind_r (getitem2 pol DemoStates demo_states i b) (\<lambda>s.
       if s = 1 then setitem2 demo_timers i b 3
       else if 0 \<le> int i - 1 then
         bind_r (getitem2 pol DemoTimers demo_timers (i - 1) b) (\<lambda>prev.
           if prev > 0
           then setitem2 demo_timers i b (max 0 (prev - real_of_int self_tick_skip / 120))
           else Inr demo_timers)
       else Inr demo_timers)"

definition update_timers ::
  "bounds \<Rightarrow> real list \<Rightarrow> locations \<Rightarrow> real list \<Rightarrow> int \<Rightarrow> ndarray2 \<Rightarrow> ndarray2
     \<Rightarrow> error + (ndarray2 \<times> ndarray2)" where
  "update_timers pol self_boost_timers self_boost_locations self_demo_timers self_tick_skip
       boost_states demo_states =
     bind_r (setrow0 (zeros2 (shape0 boost_states + 1) (shape1 boost_states)) self_boost_timers)
       (\<lambda>boost_timers0.
     bind_r (for_each [1..<shape0 boost_timers0] (\<lambda>i.
               for_each [0..<shape1 boost_timers0]
                 (boost_cell pol self_boost_locations self_tick_skip boost_states i))
               boost_timers0)
       (\<lambda>boost_timers.
     bind_r (setrow0 (zeros2 (shape0 demo_states + 1) (shape1 demo_states)) self_demo_timers)
       (\<lambda>demo_timers0.
     bind_r (for_each [1..<shape0 demo_timers0] (\<lambda>i.
               for_each [0..<shape1 demo_timers0]
                 (demo_cell pol self_tick_skip demo_states i))
               demo_timers0)
       (\<lambda>demo_timers.
     Inr (boost_timers\<lparr>rows := drop 1 (rows boost_timers)\<rparr>,
          demo_timers\<lparr>rows := drop 1 (rows demo_timers)\<rparr>)))))"

section \<open>The orientation resolver\<close>

text \<open>
  \<^verbatim>\<open>NectoObsBuilder._quats_to_rot_mtx\<close>, vectorised over the rows of \<^verbatim>\<open>quats\<close>.
  \<^verbatim>\<open>quats[:, k]\<close> raises IndexError when the array has no column \<open>k\<close>;
  \<^verbatim>\<open>a[sel]\<close> keeps the elements where the mask holds, and
  \<^verbatim>\<open>theta[sel, r, c] = vals\<close> stores the values, in order, into the matrices where
  the mask holds.
\<close>

definition column :: "ndarray2 \<Rightarrow> nat \<Rightarrow> error + real list" where
  "column a k = (if k < shape1 a then Inr (map (\<lambda>r. r ! k) (rows a)) else Inl IndexError)"

definition masked :: "bool list \<Rightarrow> 'a list \<Rightarrow> 'a list" where
  "masked sel xs = map snd (filter fst (zip sel xs))"

fun put_masked ::
  "bool list \<Rightarrow> nat \<Rightarrow> nat \<Rightarrow> real list \<Rightarrow> real list list list \<Rightarrow> real list list list" where
  "put_masked (True # sel) r c (v # vals) (m # theta) =
     m[r := (m ! r)[c := v]] # put_masked sel r c vals theta"
| "put_masked (False # sel) r c vals (m # theta) = m # put_masked sel r c vals theta"
| "put_masked sel r c vals theta = theta"

text \<open>\<^verbatim>\<open>np.einsum("fq,fq->f", quats, quats)\<close>: the squared norm of every row.\<close>

definition sq_norm :: "real list \<Rightarrow> real" where
  "sq_norm q = sum_list (map (\<lambda>v. v * v) q)"

text \<open>\<^verbatim>\<open>norm[sel]\<close>, the only numbers the function divides by.\<close>

definition divisors :: "ndarray2 \<Rightarrow> real list" where
  "divisors quats =
     (let norm = map sq_norm (rows quats); sel = map (\<lambda>n. n \<noteq> 0) norm in masked sel norm)"

definition quats_to_rot_mtx :: "ndarray2 \<Rightarrow> error + real list list list" where
  "quats_to_rot_mtx quats =
     bind_r (column quats 0) (\<lambda>q0.
     bind_r (column quats 1) (\<lambda>q1.
     bind_r (column quats 2) (\<lambda>q2.
     bind_r (column quats 3) (\<lambda>q3.
       let w = map uminus q0; x = map uminus q1; y = map uminus q2; z = map uminus q3;
           theta0 = replicate (shape0 quats) (replicate 3 (replicate 3 0));
           norm = map sq_norm (rows quats);
           sel = map (\<lambda>n. n \<noteq> 0) norm;
           s = map (\<lambda>n. 1 / n) (divisors quats);
           v = zip (masked sel w) (zip (masked sel x) (zip (masked sel y) (zip (masked sel z) s)));
           theta1 = put_masked sel 0 0 (map (\<lambda>(w, x, y, z, s). 1 - 2 * s * (y * y + z * z)) v) theta0;
           theta2 = put_masked sel 1 0 (map (\<lambda>(w, x, y, z, s). 2 * s * (x * y + z * w)) v) theta1;
           theta3 = put_masked sel 2 0 (map (\<lambda>(w, x, y, z, s). 2 * s * (x * z - y * w)) v) theta2;
           theta4 = put_masked sel 0 1 (map (\<lambda>(w, x, y, z, s). 2 * s * (x * y - z * w)) v) theta3;
           theta5 = put_masked sel 1 1 (map (\<lambda>(w, x, y, z, s). 1 - 2 * s * (x * x + z * z)) v) theta4;
           theta6 = put_masked sel 2 1 (map (\<lambda>(w, x, y, z, s). 2 * s * (y * z + x * w)) v) theta5;
           theta7 = put_masked sel 0 2 (map (\<lambda>(w, x, y, z, s). 2 * s * (x * z + y * w)) v) theta6;
           theta8 = put_masked sel 1 2 (map (\<lambda>(w, x, y, z, s). 2 * s * (y * z - x * w)) v) theta7;
           theta9 = put_masked sel 2 2 (map (\<lambda>(w, x, y, z, s). 1 - 2 * s * (x * x + y * y)) v) theta8
       in Inr theta9))))"

text \<open>
  The basis the source computes for one quaternion of nonzero norm, written out; the
  forward vector is column 0 and the up vector column 2 (\<^verbatim>\<open>rot_mtx[:, :, 0]\<close> and
  \<^verbatim>\<open>rot_mtx[:, :, 2]\<close>).
\<close>

definition rot_of :: "real list \<Rightarrow> real list list" where
  "rot_of q =
     (let w = - (q ! 0); x = - (q ! 1); y = - (q ! 2); z = - (q ! 3); s = 1 / sq_norm q
      in [[1 - 2 * s * (y * y + z * z), 2 * s * (x * y - z * w), 2 * s * (x * z + y * w)],
          [2 * s * (x * y + z * w), 1 - 2 * s * (x * x + z * z), 2 * s * (y * z - x * w)],
          [2 * s * (x * z - y * w), 2 * s * (y * z + x * w), 1 - 2 * s * (x * x + y * y)]])"

definition forward_of :: "real list list \<Rightarrow> real list" where
  "forward_of m = map (\<lambda>r. r ! 0) m"

definition up_of :: "real list list \<Rightarrow> real list" where
  "up_of m = map (\<lambda>r. r ! 2) m"

section \<open>Tensors and channels\<close>

text \<open>
  The tensors the builder allocates are maps from an index within their shape to a value:
  \<open>kv p t e c\<close> is \<^verbatim>\<open>kv[p, t, e, c]\<close> (observing player, tick, entity row, channel) and
  \<open>q p t 0 c\<close> is \<^verbatim>\<open>q[p, t, 0, c]\<close>.  A slice assignment overrides the map on the
  slice.  The channel numbers are those of the source: IS_SELF, IS_MATE, IS_OPP, IS_BALL,
  IS_BOOST = 0..4, POS = 5..7, LIN_VEL = 8..10, FW = 11..13, UP = 14..16, ANG_VEL = 17..19,
  BOOST, DEMO, ON_GROUND, HAS_FLIP, HAS_JUMP = 20..24, and 30 relative channels from
  ACTIONS.start = 25 on.
\<close>

type_synonym tensor3 = "nat \<Rightarrow> nat \<Rightarrow> nat \<Rightarrow> real"
type_synonym tensor4 = "nat \<Rightarrow> nat \<Rightarrow> nat \<Rightarrow> nat \<Rightarrow> real"

definition builder_invert :: "real list" where
  "builder_invert = replicate 5 1 @ concat (replicate 5 [-1, -1, 1]) @ replicate 5 1 @ replicate 30 1"

definition builder_norm :: "real list" where
  "builder_norm = replicate 5 1 @ replicate 6 2300 @ replicate 6 1 @ replicate 3 5.5
     @ [1, 10, 1, 1, 1] @ replicate 30 1"

section \<open>The team normalizer\<close>

text \<open>
  What \<^verbatim>\<open>batched_build_obs\<close> does to the tensor of one observing player of team 1:
  \<^verbatim>\<open>kv[teams == 1] *= self._invert\<close> multiplies the 55 channels by the mask, and the
  assignment of \<^verbatim>\<open>kv[.., (IS_OPP, IS_MATE)]\<close> to \<^verbatim>\<open>kv[.., (IS_MATE, IS_OPP)]\<close>
  (whose right-hand side numpy copies before it stores) swaps channels 1 and 2.
\<close>

definition mul_invert :: "tensor3 \<Rightarrow> tensor3" where
  "mul_invert kvp = (\<lambda>t e c. if c < 55 then kvp t e c * builder_invert ! c else kvp t e c)"

definition swap_teams :: "tensor3 \<Rightarrow> tensor3" where
  "swap_teams kvp = (\<lambda>t e c. if c = 1 then kvp t e 2 else if c = 2 then kvp t e 1 else kvp t e c)"

definition team_invert :: "tensor3 \<Rightarrow> tensor3" where
  "team_invert kvp = swap_teams (mul_invert kvp)"

section \<open>The frame transformer\<close>

text \<open>\<^verbatim>\<open>np.arctan2\<close> on the reals, and the third component of \<^verbatim>\<open>np.cross\<close>.\<close>

definition arctan2 :: "real \<Rightarrow> real \<Rightarrow> real" where
  "arctan2 y x =
     (if 0 < x then arctan (y / x)
      else if x < 0 \<and> 0 \<le> y then arctan (y / x) + pi
      else if x < 0 then arctan (y / x) - pi
      else if 0 < y then pi / 2
      else if y < 0 then - pi / 2
      else 0)"

definition cross3 :: "(nat \<Rightarrow> real) \<Rightarrow> (nat \<Rightarrow> real) \<Rightarrow> nat \<Rightarrow> real" where
  "cross3 a b k =
     (if k = 0 then a 1 * b 2 - a 2 * b 1
      else if k = 1 then a 2 * b 0 - a 0 * b 2
      else a 0 * b 1 - a 1 * b 0)"

text \<open>
  \<^verbatim>\<open>NectoObsBuilder.add_relative_components\<close>.  \<^verbatim>\<open>vals = kv[..., 5:20]\<close> is a view
  of \<^verbatim>\<open>kv\<close>, not a copy: the in-place subtraction on \<^verbatim>\<open>vals[..., 5:11]\<close> changes
  \<^verbatim>\<open>kv[..., 10:16]\<close>.  \<open>vals e v\<close> below is the view after that subtraction, and the
  returned map is \<^verbatim>\<open>kv\<close> after the call; \<^verbatim>\<open>q\<close> is another array and is not
  changed.
\<close>

definition add_relative_components :: "tensor4 \<Rightarrow> tensor4 \<Rightarrow> tensor4" where
  "add_relative_components q kv = (\<lambda>p t.
     let forward = (\<lambda>k. q p t 0 (11 + k));
         up = (\<lambda>k. q p t 0 (14 + k));
         left = cross3 up forward;
         pitch = arctan2 (forward 2) (sqrt ((forward 0)\<^sup>2 + (forward 1)\<^sup>2));
         yaw = arctan2 (forward 1) (forward 0);
         roll = arctan2 (left 2) (up 2);
         cr = cos roll; sr = sin roll;
         cp = cos pitch; sp = sin pitch;
         cy = cos yaw; sy = sin yaw;
         vals = (\<lambda>e v. if 5 \<le> v \<and> v < 11 then kv p t e (5 + v) - q p t 0 v
                        else kv p t e (5 + v));
         xs = (\<lambda>e j. vals e (3 * j));
         ys = (\<lambda>e j. vals e (3 * j + 1));
         zs = (\<lambda>e j. vals e (3 * j + 2));
         flip_relative_xs = (\<lambda>e j. cy * xs e j - sy * ys e j);
         flip_relative_ys = (\<lambda>e j. sy * xs e j + cy * ys e j);
         flip_relative_zs = zs;
         car_relative_xs = (\<lambda>e j. cp * cy * xs e j + (sr * sp * cy - cr * sy) * ys e j
                                   - (cr * sp * cy + sr * sy) * zs e j);
         car_relative_ys = (\<lambda>e j. cp * sy * xs e j + (sr * sp * sy + cr * cy) * ys e j
                                   - (cr * sp * sy - sr * cy) * zs e j);
         car_relative_zs = (\<lambda>e j. sp * xs e j - cp * sr * ys e j + cp * cr * zs e j);
         all_rows = (\<lambda>e k. if k < 5 then flip_relative_xs e k
                            else if k < 10 then flip_relative_ys e (k - 5)
                            else if k < 15 then flip_relative_zs e (k - 10)
                            else if k < 20 then car_relative_xs e (k - 15)
                            else if k < 25 then car_relative_ys e (k - 20)
                            else car_relative_zs e (k - 25))
     in (\<lambda>e c. if 25 \<le> c \<and> c < 55 then all_rows e (c - 25)
                else if 5 \<le> c \<and> c < 20 then vals e (c - 5)
                else kv p t e c))"

section \<open>The batched builder\<close>

text \<open>
  The constants of the record layout come from rlgym (\<^verbatim>\<open>GameState\<close>) and rocket_learn
  (\<^verbatim>\<open>StateConstants\<close>, of whose slices the code uses the start) and are not part of the
  repository: they are parameters.  The code itself fixes the number of pads (34), the place
  of the pad block (columns 3 to 36), of the team number (offset 1 of a player block) and
  of the elimination flag (offset 33 of a player block).
\<close>

record layout =
  BOOST_PADS_LENGTH :: nat
  BALL_STATE_LENGTH :: nat
  PLAYER_INFO_LENGTH :: nat
  CAR_POS_X :: nat
  CAR_POS_Z :: nat
  CAR_QUAT_W :: nat
  CAR_QUAT_Z :: nat
  CAR_LINEAR_VEL_X :: nat
  CAR_LINEAR_VEL_Z :: nat
  CAR_ANGULAR_VEL_X :: nat
  CAR_ANGULAR_VEL_Z :: nat
  BOOST_AMOUNT :: nat
  ON_GROUND :: nat
  HAS_FLIP :: nat
  HAS_JUMP :: nat

text \<open>The values these constants have in rlgym 1.x and rocket_learn, used in the examples.\<close>

definition rlgym_layout :: layout where
  "rlgym_layout = \<lparr>BOOST_PADS_LENGTH = 34, BALL_STATE_LENGTH = 18, PLAYER_INFO_LENGTH = 39,
     CAR_POS_X = 2, CAR_POS_Z = 4, CAR_QUAT_W = 5, CAR_QUAT_Z = 8,
     CAR_LINEAR_VEL_X = 9, CAR_LINEAR_VEL_Z = 11,
     CAR_ANGULAR_VEL_X = 12, CAR_ANGULAR_VEL_Z = 14,
     BOOST_AMOUNT = 38, ON_GROUND = 34, HAS_FLIP = 37, HAS_JUMP = 36\<rparr>"

text \<open>
  The fields of the builder object that \<^verbatim>\<open>batched_build_obs\<close> uses.  The carried timers
  are the arrays \<^verbatim>\<open>_reset\<close> creates; the call replaces them.
\<close>

record builder =
  self_n_players :: "nat option"
  self_demo_timers :: "real list"
  self_boost_timers :: "real list"
  self_tick_skip :: int
  self_boost_locations :: locations

text \<open>
  Slices.  \<^verbatim>\<open>a[:, lo:hi]\<close> and \<^verbatim>\<open>a[:, start::step]\<close> never raise: they are cut to
  the width of the array.  \<^verbatim>\<open>r[start::step]\<close> is the same slice of one row.
\<close>

definition cols :: "ndarray2 \<Rightarrow> nat \<Rightarrow> nat \<Rightarrow> ndarray2" where
  "cols a lo hi = \<lparr>shape1 = min hi (shape1 a) - lo,
                    rows = map (\<lambda>r. take (hi - lo) (drop lo r)) (rows a)\<rparr>"

definition strided :: "real list \<Rightarrow> nat \<Rightarrow> nat \<Rightarrow> real list" where
  "strided r start step =
     map (\<lambda>k. r ! (start + k * step)) [0..<(length r - start + step - 1) div step]"

definition cols_step :: "ndarray2 \<Rightarrow> nat \<Rightarrow> nat \<Rightarrow> ndarray2" where
  "cols_step a start step = \<lparr>shape1 = (shape1 a - start + step - 1) div step,
                              rows = map (\<lambda>r. strided r start step) (rows a)\<rparr>"

text \<open>
  Broadcasting along the last axis: an assignment takes a source of the width of the
  target, or of width one, whose single element is repeated; every other width raises
  ValueError.
\<close>

definition fits :: "nat \<Rightarrow> nat \<Rightarrow> bool" where
  "fits have need = (have = need \<or> have = 1)"

definition bcast :: "real list \<Rightarrow> nat \<Rightarrow> real" where
  "bcast xs k = (if length xs = 1 then xs ! 0 else xs ! k)"

text \<open>
  \<^verbatim>\<open>kv[:, :, e, c0:c0+n] = src\<close> for a source of one row per tick, and
  \<^verbatim>\<open>kv[:, :, e, c] = col\<close> for a source of one value per tick.
\<close>

definition put_block :: "nat \<Rightarrow> nat \<Rightarrow> nat \<Rightarrow> ndarray2 \<Rightarrow> tensor4 \<Rightarrow> error + tensor4" where
  "put_block e c0 n src kv =
     (if fits (shape1 src) n
      then Inr (\<lambda>p t e' c. if e' = e \<and> c0 \<le> c \<and> c < c0 + n
                            then bcast (rows src ! t) (c - c0) else kv p t e' c)
      else Inl ValueError)"

definition put_col :: "nat \<Rightarrow> nat \<Rightarrow> real list \<Rightarrow> tensor4 \<Rightarrow> tensor4" where
  "put_col e c col kv = (\<lambda>p t e' c'. if e' = e \<and> c' = c then col ! t else kv p t e' c')"

text \<open>
  The columns \<^verbatim>\<open>np.r_[POS, LIN_VEL, ANG_VEL]\<close> = 5, .., 10, 17, 18, 19 receive the nine
  numbers of the ball block in this order; \<open>ball_index c\<close> is the place of channel \<open>c\<close>
  among them.
\<close>

definition ball_index :: "nat \<Rightarrow> nat option" where
  "ball_index c = (if 5 \<le> c \<and> c < 11 then Some (c - 5)
                   else if 17 \<le> c \<and> c < 20 then Some (c - 11) else None)"

definition loc_component :: "real \<times> real \<times> real \<Rightarrow> nat \<Rightarrow> real" where
  "loc_component v k = (if k = 0 then fst v else if k = 1 then fst (snd v) else snd (snd v))"

text \<open>
  One round of the loop over the players: the rows \<^verbatim>\<open>kv[:, :, i, ..]\<close> of player
  \<open>i\<close> are written for every observing player, and the self indicator for observer
  \<open>i\<close> only.  \<open>n_entities\<close> is the number of entity rows of \<^verbatim>\<open>kv\<close>.
\<close>

definition player_step ::
  "layout \<Rightarrow> ndarray2 \<Rightarrow> ndarray2 \<Rightarrow> nat \<Rightarrow> nat \<Rightarrow> tensor4 \<Rightarrow> error + tensor4" where
  "player_step L encoded_states demo_timers n_entities i kv =
     (let players_start_index = 3 + BOOST_PADS_LENGTH L + BALL_STATE_LENGTH L;
          player_length = PLAYER_INFO_LENGTH L;
          encoded_player = cols encoded_states (players_start_index + i * player_length)
                             (players_start_index + (i + 1) * player_length)
      in if \<not> i < n_entities then Inl IndexError
         else
     bind_r (put_block i 5 3 (cols encoded_player (CAR_POS_X L) (CAR_POS_Z L + 1))
               (\<lambda>p t e c. if p = i \<and> e = i \<and> c = 0 then 1 else kv p t e c)) (\<lambda>kv.
     bind_r (put_block i 8 3
               (cols encoded_player (CAR_LINEAR_VEL_X L) (CAR_LINEAR_VEL_Z L + 1)) kv) (\<lambda>kv.
     bind_r (quats_to_rot_mtx (cols encoded_player (CAR_QUAT_W L) (CAR_QUAT_Z L + 1)))
       (\<lambda>rot_mtx.
     bind_r (put_block i 17 3
               (cols encoded_player (CAR_ANGULAR_VEL_X L) (CAR_ANGULAR_VEL_Z L + 1))
               (\<lambda>p t e c. if e = i \<and> 14 \<le> c \<and> c < 17 then up_of (rot_mtx ! t) ! (c - 14)
                           else if e = i \<and> 11 \<le> c \<and> c < 14
                             then forward_of (rot_mtx ! t) ! (c - 11)
                           else kv p t e c)) (\<lambda>kv.
     bind_r (column encoded_player (BOOST_AMOUNT L)) (\<lambda>boost.
     bind_r (column demo_timers i) (\<lambda>demo.
     bind_r (column encoded_player (ON_GROUND L)) (\<lambda>on_ground.
     bind_r (column encoded_player (HAS_FLIP L)) (\<lambda>has_flip.
     bind_r (column encoded_player (HAS_JUMP L)) (\<lambda>has_jump.
       Inr (put_col i 24 has_jump (put_col i 23 has_flip (put_col i 22 on_ground
             (put_col i 21 demo (put_col i 20 boost kv)))))))))))))))"

text \<open>
  The tensors before the loop over the players: zeros, the ball row, the pad rows and the
  team indicators.  \<open>lim_players\<close> is the number of player rows, the ball row follows
  them, and the 34 pad rows follow the ball row.
\<close>

definition base_rows ::
  "locations \<Rightarrow> ndarray2 \<Rightarrow> ndarray2 \<Rightarrow> real list \<Rightarrow> nat \<Rightarrow> nat \<Rightarrow> nat \<Rightarrow> tensor4" where
  "base_rows locs ball boost_timers teams n_players lim_players n_entities =
     (let sel_ball = lim_players;
          sel_boosts = (\<lambda>e. sel_ball + 1 \<le> e \<and> e < n_entities);
          kv = (\<lambda>p t e c. 0);
          kv = (\<lambda>p t e c. if e = sel_ball \<and> c = 3 then 1 else kv p t e c);
          kv = (\<lambda>p t e c. if e = sel_ball \<and> ball_index c \<noteq> None
                             then bcast (rows ball ! t) (the (ball_index c))
                           else kv p t e c);
          kv = (\<lambda>p t e c. if sel_boosts e \<and> c = 4 then 1 else kv p t e c);
          kv = (\<lambda>p t e c. if sel_boosts e \<and> 5 \<le> c \<and> c < 8
                             then loc_component (locs (e - (sel_ball + 1))) (c - 5)
                           else kv p t e c);
          kv = (\<lambda>p t e c. if sel_boosts e \<and> c = 20 then 1 else kv p t e c);
          kv = (\<lambda>p t e c. if sel_boosts e \<and> c = 21
                             then bcast (rows boost_timers ! t) (e - (sel_ball + 1))
                           else kv p t e c);
          kv = (\<lambda>p t e c. if e < n_players \<and> e < n_entities \<and> c = 1 then 1 - bcast teams e
                           else kv p t e c);
          kv = (\<lambda>p t e c. if e < n_players \<and> e < n_entities \<and> c = 2 then bcast teams e
                           else kv p t e c)
      in kv)"

text \<open>
  The steps after the loop, for \<open>P\<close> observing players: the inversion of the tensors of
  the observers of team 1 (\<^verbatim>\<open>kv[teams == 1] *= self._invert\<close> and the swap), the
  division \<^verbatim>\<open>kv /= self._norm\<close>, the copy of the observer's own row into the first 25
  channels of \<^verbatim>\<open>q\<close> (33 channels, zero elsewhere), and the mask
  \<^verbatim>\<open>m[:, :, n_players:lim_players] = 1\<close>.
\<close>

definition normalize_teams :: "real list \<Rightarrow> nat \<Rightarrow> tensor4 \<Rightarrow> tensor4" where
  "normalize_teams teams P kv = (\<lambda>p. if p < P \<and> teams ! p = 1 then team_invert (kv p) else kv p)"

definition divide_norm :: "tensor4 \<Rightarrow> tensor4" where
  "divide_norm kv = (\<lambda>p t e c. if c < 55 then kv p t e c / builder_norm ! c else kv p t e c)"

definition query_rows :: "nat \<Rightarrow> tensor4 \<Rightarrow> tensor4" where
  "query_rows P kv = (\<lambda>p t z c. if p < P \<and> z = 0 \<and> c < 25 then kv p t p c else 0)"

definition mask_rows :: "nat \<Rightarrow> nat \<Rightarrow> nat \<Rightarrow> nat \<Rightarrow> nat \<Rightarrow> nat \<Rightarrow> real" where
  "mask_rows P lim_players E =
     (\<lambda>p t e. if P \<le> e \<and> e < lim_players \<and> e < E then 1 else 0)"

text \<open>
  The end of \<^verbatim>\<open>batched_build_obs\<close>, from the inversion to the returned list of
  triples \<^verbatim>\<open>(q[i], kv[i], m[i])\<close>.
\<close>

definition observations ::
  "real list \<Rightarrow> nat \<Rightarrow> nat \<Rightarrow> nat \<Rightarrow> tensor4
     \<Rightarrow> (tensor3 \<times> tensor3 \<times> (nat \<Rightarrow> nat \<Rightarrow> real)) list" where
  "observations teams P lim_players E kv =
     (let kv = normalize_teams teams P kv;
          kv = divide_norm kv;
          q = query_rows P kv;
          kv = add_relative_components q kv;
          m = mask_rows P lim_players E
      in map (\<lambda>i. (q i, kv i, m i)) [0..<P])"

text \<open>
  \<^verbatim>\<open>NectoObsBuilder.batched_build_obs\<close>.  The result is the list of the triples
  \<^verbatim>\<open>(q[i], kv[i], m[i])\<close> and the builder with its new carried timers.
\<close>

definition batched_build_obs ::
  "layout \<Rightarrow> bounds \<Rightarrow> builder \<Rightarrow> ndarray2
     \<Rightarrow> error + ((tensor3 \<times> tensor3 \<times> (nat \<Rightarrow> nat \<Rightarrow> real)) list \<times> builder)" where
  "batched_build_obs L pol self encoded_states =
     (let ball_start_index = 3 + BOOST_PADS_LENGTH L;
          players_start_index = ball_start_index + BALL_STATE_LENGTH L;
          player_length = PLAYER_INFO_LENGTH L
      in if player_length = 0 then Inl ZeroDivisionError
         else
     (let n_players = (int (shape1 encoded_states) - int players_start_index)
                        div int player_length;
          lim_players = (case self_n_players self of None \<Rightarrow> n_players | Some c \<Rightarrow> int c);
          n_entities = lim_players + 1 + 34
      in
     bind_r (update_timers pol (self_boost_timers self) (self_boost_locations self)
               (self_demo_timers self) (self_tick_skip self)
               (cols encoded_states 3 (3 + 34))
               (cols_step encoded_states (players_start_index + 33) player_length))
       (\<lambda>(boost_timers, demo_timers).
     if rows boost_timers = [] \<or> rows demo_timers = [] then Inl IndexError
     else
     (let self' = self\<lparr>self_boost_timers := last (rows boost_timers),
                        self_demo_timers := last (rows demo_timers)\<rparr>
      in if n_players < 0 \<or> n_entities < 0 then Inl ValueError
         else
     (let P = nat n_players; lim = nat lim_players; E = nat n_entities;
          ball = cols encoded_states ball_start_index (ball_start_index + 9);
          teams = strided (rows encoded_states ! 0) (players_start_index + 1) player_length
      in if \<not> fits (shape1 ball) 9 then Inl ValueError
         else if \<not> fits (shape1 boost_timers) 34 then Inl ValueError
         else if \<not> fits (length teams) (min P E) then Inl ValueError
         else
     bind_r (for_each [0..<P] (player_step L encoded_states demo_timers E)
               (base_rows (self_boost_locations self) ball boost_timers teams P lim E))
       (\<lambda>kv.
     if length teams \<noteq> P then Inl IndexError
     else
     Inr (observations teams P lim E kv, self')))))))"

section \<open>Notions used in the statements\<close>

text \<open>
  The first column of the first player block, the number of whole player blocks in a
  record of the batch (the code's \<^verbatim>\<open>n_players\<close> when the record is long enough), and
  the number of player rows of the tensors (the code's \<^verbatim>\<open>lim_players\<close>).
\<close>

definition players_start :: "layout \<Rightarrow> nat" where
  "players_start L = 3 + BOOST_PADS_LENGTH L + BALL_STATE_LENGTH L"

definition player_count :: "layout \<Rightarrow> ndarray2 \<Rightarrow> nat" where
  "player_count L es = (shape1 es - players_start L) div PLAYER_INFO_LENGTH L"

definition capacity :: "builder \<Rightarrow> nat \<Rightarrow> nat" where
  "capacity self n = (case self_n_players self of None \<Rightarrow> n | Some c \<Rightarrow> c)"

text \<open>
  The part of \<^verbatim>\<open>batched_build_obs\<close> after the timers and the allocation, written
  with these numbers; \<open>batched_build_obs_unfold\<close> below relates it to the function.
\<close>

definition after_timers ::
  "layout \<Rightarrow> builder \<Rightarrow> ndarray2 \<Rightarrow> ndarray2 \<Rightarrow> ndarray2
     \<Rightarrow> error + ((tensor3 \<times> tensor3 \<times> (nat \<Rightarrow> nat \<Rightarrow> real)) list \<times> builder)" where
  "after_timers L self es bt dt =
     (let P = player_count L es; lim_players = capacity self P; E = lim_players + 35;
          ball = cols es (3 + BOOST_PADS_LENGTH L) (3 + BOOST_PADS_LENGTH L + 9);
          teams = strided (rows es ! 0) (players_start L + 1) (PLAYER_INFO_LENGTH L)
      in if \<not> fits (shape1 ball) 9 then Inl ValueError
         else if \<not> fits (shape1 bt) 34 then Inl ValueError
         else if \<not> fits (length teams) (min P E) then Inl ValueError
         else
           bind_r (for_each [0..<P] (player_step L es dt E)
                     (base_rows (self_boost_locations self) ball bt teams P lim_players E))
             (\<lambda>kv.
           if length teams \<noteq> P then Inl IndexError
           else Inr (observations teams P lim_players E kv,
                     self\<lparr>self_boost_timers := last (rows bt),
                          self_demo_timers := last (rows dt)\<rparr>)))"

text \<open>Field \<open>off\<close> of player \<open>i\<close> at tick \<open>t\<close> in the batch, and the player's team.\<close>

definition player_field :: "layout \<Rightarrow> ndarray2 \<Rightarrow> nat \<Rightarrow> nat \<Rightarrow> nat \<Rightarrow> real" where
  "player_field L es t i off = rows es ! t ! (players_start L + i * PLAYER_INFO_LENGTH L + off)"

definition team_of :: "layout \<Rightarrow> ndarray2 \<Rightarrow> nat \<Rightarrow> real" where
  "team_of L es i = player_field L es 0 i 1"

text \<open>
  A layout whose blocks hold what the code reads from them: the ball block has the nine
  numbers and ends after column 36, a player block holds the elimination flag at offset 33,
  a position, velocity and angular velocity of three numbers, a quaternion of four, and
  the scalar fields.
\<close>

definition wf_layout :: "layout \<Rightarrow> bool" where
  "wf_layout L =
     (9 \<le> BALL_STATE_LENGTH L \<and> 34 \<le> BOOST_PADS_LENGTH L + BALL_STATE_LENGTH L
      \<and> 33 < PLAYER_INFO_LENGTH L
      \<and> CAR_POS_Z L = CAR_POS_X L + 2 \<and> CAR_POS_Z L < PLAYER_INFO_LENGTH L
      \<and> CAR_QUAT_Z L = CAR_QUAT_W L + 3 \<and> CAR_QUAT_Z L < PLAYER_INFO_LENGTH L
      \<and> CAR_LINEAR_VEL_Z L = CAR_LINEAR_VEL_X L + 2 \<and> CAR_LINEAR_VEL_Z L < PLAYER_INFO_LENGTH L
      \<and> CAR_ANGULAR_VEL_Z L = CAR_ANGULAR_VEL_X L + 2
      \<and> CAR_ANGULAR_VEL_Z L < PLAYER_INFO_LENGTH L
      \<and> BOOST_AMOUNT L < PLAYER_INFO_LENGTH L \<and> ON_GROUND L < PLAYER_INFO_LENGTH L
      \<and> HAS_FLIP L < PLAYER_INFO_LENGTH L \<and> HAS_JUMP L < PLAYER_INFO_LENGTH L)"

text \<open>An array of \<open>n\<close> rows of \<open>m\<close> numbers.\<close>

definition shaped :: "nat \<Rightarrow> nat \<Rightarrow> ndarray2 \<Rightarrow> bool" where
  "shaped n m a = (shape1 a = m \<and> length (rows a) = n \<and> (\<forall>r \<in> set (rows a). length r = m))"

text \<open>The observations of a result: the list is empty when the call raised.\<close>

definition obs_of ::
  "error + ((tensor3 \<times> tensor3 \<times> (nat \<Rightarrow> nat \<Rightarrow> real)) list \<times> builder)
     \<Rightarrow> (tensor3 \<times> tensor3 \<times> (nat \<Rightarrow> nat \<Rightarrow> real)) list" where
  "obs_of r = (case r of Inl e \<Rightarrow> [] | Inr v \<Rightarrow> fst v)"

definition kv_of :: "tensor3 \<times> tensor3 \<times> (nat \<Rightarrow> nat \<Rightarrow> real) \<Rightarrow> tensor3" where
  "kv_of ob = fst (snd ob)"

definition mask_of :: "tensor3 \<times> tensor3 \<times> (nat \<Rightarrow> nat \<Rightarrow> real) \<Rightarrow> nat \<Rightarrow> nat \<Rightarrow> real" where
  "mask_of ob = snd (snd ob)"

text \<open>The number of nonzero entries, for the kind indicators of a row.\<close>

definition count_nonzero :: "real list \<Rightarrow> nat" where
  "count_nonzero xs = length (filter (\<lambda>x. x \<noteq> 0) xs)"

text \<open>
  The sign the inversion gives component \<open>k\<close> (0, 1, 2 for x, y, z) of a position,
  velocity or angular velocity in the tensor of an observer of the given team.
\<close>

definition mirror :: "real \<Rightarrow> nat \<Rightarrow> real" where
  "mirror team k = (if team = 1 \<and> k < 2 then - 1 else 1)"

section \<open>Example batches\<close>

text \<open>
  One tick of a two-player episode in the layout of rlgym: all pads available, a player
  of team 0 at x = 2300 and a player of team 1 at x = - 2300, both with the identity
  orientation, on the ground, not eliminated.  The builder has capacity six and zero
  carried timers; the pads are of the major class.  \<open>example_memory\<close> is a content of the
  memory after the arrays under which the unchecked reads trigger no reset.
\<close>

definition example_player :: "real \<Rightarrow> real \<Rightarrow> real list" where
  "example_player team x =
     [0, team, x, 0, 17, 1, 0, 0, 0, 0, 0, 0, 0, 0, 0] @ replicate 13 0
       @ [0, 0, 0, 0, 0, 0, 1, 0, 1, 1, 1 / 2]"

definition example_states :: ndarray2 where
  "example_states = \<lparr>shape1 = 133,
     rows = [[0, 0, 0] @ replicate 34 1 @ replicate 18 0
             @ example_player 0 2300 @ example_player 1 (- 2300)]\<rparr>"

definition example_builder :: builder where
  "example_builder = \<lparr>self_n_players = Some 6, self_demo_timers = [0, 0],
     self_boost_timers = replicate 34 0, self_tick_skip = 8,
     self_boost_locations = (\<lambda>b. (0, 0, 73))\<rparr>"

definition example_memory :: "arr \<Rightarrow> nat \<Rightarrow> nat \<Rightarrow> real" where
  "example_memory name i j = (if name = BoostStates then 1 else 0)"

text \<open>The same tick with one surplus column at the end of the record.\<close>

definition example_wide :: ndarray2 where
  "example_wide = \<lparr>shape1 = 134, rows = map (\<lambda>r. r @ [0]) (rows example_states)\<rparr>"

text \<open>The same tick with two surplus columns.\<close>

definition example_ragged :: ndarray2 where
  "example_ragged = \<lparr>shape1 = 135, rows = map (\<lambda>r. r @ [0, 0]) (rows example_states)\<rparr>"

section \<open>The legacy encoder\<close>

text \<open>
  \<^verbatim>\<open>NectoObsOLD\<close>, the non-batched encoder the \<^verbatim>\<open>__main__\<close> block of the source
  compares the batched builder with.  It reads rlgym's decoded \<^verbatim>\<open>GameState\<close>: the
  fields it uses are the records below (the methods \<^verbatim>\<open>forward()\<close> and \<^verbatim>\<open>up()\<close> of
  the car data, which rlgym computes, are fields here).
\<close>

record physics_object =
  position :: "real \<times> real \<times> real"
  linear_velocity :: "real \<times> real \<times> real"
  angular_velocity :: "real \<times> real \<times> real"
  forward_dir :: "real \<times> real \<times> real"
  up_dir :: "real \<times> real \<times> real"

record player_data =
  team_num :: nat
  car_data :: physics_object
  boost_amount :: real
  is_demoed :: bool
  on_ground :: bool
  has_flip :: bool

record game_state =
  state_ball :: physics_object
  state_players :: "player_data list"
  state_boost_pads :: "real list"

type_synonym tensor2 = "nat \<Rightarrow> nat \<Rightarrow> real"

text \<open>
  The object: the timers are \<^verbatim>\<open>None\<close> until \<^verbatim>\<open>reset\<close>, and the tensors of the
  last state are kept.
\<close>

record old_builder =
  old_n_players :: nat
  old_demo_timers :: "real list option"
  old_boost_timers :: "real list option"
  old_current_state :: "game_state option"
  old_current_qkv :: tensor2
  old_current_mask :: "nat \<Rightarrow> real"
  old_tick_skip :: int
  old_boost_locations :: locations

definition old_invert :: "real list" where
  "old_invert = replicate 5 1 @ concat (replicate 5 [-1, -1, 1]) @ replicate 4 1"

definition old_norm :: "real list" where
  "old_norm = replicate 5 1 @ replicate 6 2300 @ replicate 6 1 @ replicate 3 5.5 @ replicate 4 1"

definition of_bool_real :: "bool \<Rightarrow> real" where
  "of_bool_real b = (if b then 1 else 0)"

text \<open>
  The loop \<^verbatim>\<open>for player in state.players\<close> of \<^verbatim>\<open>_maybe_update_obs\<close>, with the row
  \<open>n\<close> it writes next, on the tensor and the array \<^verbatim>\<open>demos\<close>; \<open>n_rows\<close> is the number
  of rows of the tensor.
\<close>

fun old_players_loop ::
  "nat \<Rightarrow> nat \<Rightarrow> player_data list \<Rightarrow> tensor2 \<times> real list \<Rightarrow> error + (tensor2 \<times> real list)" where
  "old_players_loop n_rows n [] (qkv, demos) = Inr (qkv, demos)"
| "old_players_loop n_rows n (player # rest) (qkv, demos) =
     (if \<not> n < n_rows then Inl IndexError
      else if \<not> n - 1 < length demos then Inl IndexError
      else
        old_players_loop n_rows (n + 1) rest
          ((\<lambda>e c.
              if e = n \<and> c = 23 then of_bool_real (has_flip player)
              else if e = n \<and> c = 22 then of_bool_real (on_ground player)
              else if e = n \<and> c = 20 then boost_amount player
              else if e = n \<and> 17 \<le> c \<and> c < 20
                then loc_component (angular_velocity (car_data player)) (c - 17)
              else if e = n \<and> 14 \<le> c \<and> c < 17
                then loc_component (up_dir (car_data player)) (c - 14)
              else if e = n \<and> 11 \<le> c \<and> c < 14
                then loc_component (forward_dir (car_data player)) (c - 11)
              else if e = n \<and> 8 \<le> c \<and> c < 11
                then loc_component (linear_velocity (car_data player)) (c - 8)
              else if e = n \<and> 5 \<le> c \<and> c < 8
                then loc_component (position (car_data player)) (c - 5)
              else if e = n \<and> c = 1 \<and> team_num player = 0 then 1
              else if e = n \<and> c = 2 \<and> team_num player \<noteq> 0 then 1
              else qkv e c),
           demos[n - 1 := of_bool_real (is_demoed player)]))"

text \<open>
  The timers of the legacy encoder, for one population: a timer that is zero where the
  state is 1 is set to \<open>fresh\<close>, the timers are multiplied by the states and written to
  the tensor, then decreased by \<^verbatim>\<open>tick_skip / 1200\<close> and cut at zero.  The first
  component is what the tensor gets, the second what the object keeps.
\<close>

definition old_timers ::
  "(nat \<Rightarrow> real) \<Rightarrow> int \<Rightarrow> real list \<Rightarrow> real list \<Rightarrow> real list \<times> real list" where
  "old_timers fresh tick_skip states timers =
     (let new_grabs = map (\<lambda>(s, t). s = 1 \<and> t = 0) (zip states timers);
          timers = map (\<lambda>(b, g, t). if g then fresh b else t)
                     (zip [0..<length timers] (zip new_grabs timers));
          timers = map (\<lambda>(t, s). t * s) (zip timers states);
          shown = timers;
          timers = map (\<lambda>t. t - real_of_int tick_skip / 1200) timers;
          timers = map (\<lambda>t. if t < 0 then 0 else t) timers
      in (shown, timers))"

text \<open>
  \<^verbatim>\<open>NectoObsOLD.reset\<close>: zero timers, one per player row and one per pad of the state.
\<close>

definition old_reset :: "old_builder \<Rightarrow> game_state \<Rightarrow> old_builder" where
  "old_reset self initial_state =
     self\<lparr>old_demo_timers := Some (replicate (old_n_players self) 0),
          old_boost_timers := Some (replicate (length (state_boost_pads initial_state)) 0)\<rparr>"

text \<open>
  What numpy raises when an array of timers has not the length of the array of states it is
  combined with: a timer array of length one is broadcast in the comparison and fails at
  the boolean index (IndexError), every other length fails at the broadcast (ValueError).
\<close>

definition timers_mismatch :: "nat \<Rightarrow> error" where
  "timers_mismatch n = (if n = 1 then IndexError else ValueError)"

text \<open>
  \<^verbatim>\<open>NectoObsOLD._maybe_update_obs\<close>.  The comparison of the state with the last
  state is the equality of the records.  The table of the pad locations has 34 rows, so the
  assignment of the locations raises ValueError for any other number of pads.  Timers that
  are \<^verbatim>\<open>None\<close> where they are indexed raise TypeError.
\<close>

definition old_maybe_update_obs :: "old_builder \<Rightarrow> game_state \<Rightarrow> error + old_builder" where
  "old_maybe_update_obs self state =
     (if Some state = old_current_state self then Inr self
      else
        (let self = (if old_boost_timers self = None then old_reset self state
                     else self\<lparr>old_current_state := Some state\<rparr>);
             n_players = old_n_players self;
             n_pads = length (state_boost_pads state);
             n_rows = 1 + n_players + n_pads;
             locs = old_boost_locations self;
             ball = state_ball state;
             qkv = (\<lambda>e c. 0);
             qkv = (\<lambda>e c. if e = 0 \<and> c = 3 then 1
                            else if e = 0 \<and> 5 \<le> c \<and> c < 8
                              then loc_component (position ball) (c - 5)
                            else if e = 0 \<and> 8 \<le> c \<and> c < 11
                              then loc_component (linear_velocity ball) (c - 8)
                            else if e = 0 \<and> 17 \<le> c \<and> c < 20
                              then loc_component (angular_velocity ball) (c - 17)
                            else qkv e c)
         in bind_r (old_players_loop n_rows 1 (state_players state)
                      (qkv, replicate n_players 0)) (\<lambda>(qkv, demos).
            if n_pads \<noteq> 34 then Inl ValueError
            else
              (let n = 1 + n_players;
                   qkv = (\<lambda>e c. if n \<le> e \<and> e < n_rows \<and> c = 20
                                    then 0.12 + 0.88 * of_bool_real (loc_z locs (e - n) > 72)
                                  else if n \<le> e \<and> e < n_rows \<and> 5 \<le> c \<and> c < 8
                                    then loc_component (locs (e - n)) (c - 5)
                                  else if n \<le> e \<and> e < n_rows \<and> c = 4 then 1
                                  else qkv e c)
               in case old_boost_timers self of
                    None \<Rightarrow> Inl TypeError
                  | Some boost_timers \<Rightarrow>
                      if length boost_timers \<noteq> n_pads
                      then Inl (timers_mismatch (length boost_timers))
                      else
                        (let (boost_shown, boost_timers) =
                               old_timers (\<lambda>b. 0.4 + 0.6 * of_bool_real (loc_z locs b > 72))
                                 (old_tick_skip self) (state_boost_pads state) boost_timers;
                             qkv = (\<lambda>e c. if n \<le> e \<and> e < n_rows \<and> c = 21
                                              then boost_shown ! (e - n) else qkv e c)
                         in case old_demo_timers self of
                              None \<Rightarrow> Inl TypeError
                            | Some demo_timers \<Rightarrow>
                                if length demo_timers \<noteq> n_players
                                then Inl (timers_mismatch (length demo_timers))
                                else
                                  (let (demo_shown, demo_timers) =
                                         old_timers (\<lambda>b. 0.3) (old_tick_skip self) demos
                                           demo_timers;
                                       qkv = (\<lambda>e c. if 1 \<le> e \<and> e < n \<and> c = 21
                                                        then demo_shown ! (e - 1) else qkv e c)
                                   in Inr (self\<lparr>old_boost_timers := Some boost_timers,
                                                old_demo_timers := Some demo_timers,
                                                old_current_qkv :=
                                                  (\<lambda>e c. if c < 24 then qkv e c / old_norm ! c
                                                          else qkv e c),
                                                old_current_mask :=
                                                  (\<lambda>e. if 1 + length (state_players state) \<le> e
                                                            \<and> e < 1 + n_players \<and> e < n_rows
                                                         then 1 else 0)\<rparr>)))))))"

text \<open>\<^verbatim>\<open>state.players.index(player)\<close>: the first place of the player, or ValueError.\<close>

fun index_of :: "'a list \<Rightarrow> 'a \<Rightarrow> error + nat" where
  "index_of [] x = Inl ValueError"
| "index_of (y # ys) x = (if y = x then Inr 0 else bind_r (index_of ys x) (\<lambda>i. Inr (i + 1)))"

text \<open>
  \<^verbatim>\<open>NectoObsOLD.build_obs\<close>.  Before \<^verbatim>\<open>reset\<close> it returns an empty array, here
  \<open>None\<close>; otherwise the query row (24 channels and the previous action), the tensor of
  the entity rows, of 24 channels, and the mask.  The row \<open>main_n\<close> of the tensor exists
  whenever the update has returned for this state: the loop over the players has written it.
\<close>

definition old_build_obs ::
  "old_builder \<Rightarrow> player_data \<Rightarrow> game_state \<Rightarrow> real list
     \<Rightarrow> error + ((real list \<times> tensor2 \<times> (nat \<Rightarrow> real)) option \<times> old_builder)" where
  "old_build_obs self player state previous_action =
     (if old_boost_timers self = None then Inr (None, self)
      else
        bind_r (old_maybe_update_obs self state) (\<lambda>self.
        bind_r (index_of (state_players state) player) (\<lambda>i.
          (let invert = (team_num player = 1);
               qkv = old_current_qkv self;
               mask = old_current_mask self;
               main_n = i + 1;
               qkv = (\<lambda>e c. if e = main_n \<and> c = 0 then 1 else qkv e c);
               qkv = (if invert
                      then (\<lambda>e c. (if c = 1 then qkv e 2 else if c = 2 then qkv e 1 else qkv e c)
                                     * (if c < 24 then old_invert ! c else 1))
                      else qkv);
               q = map (qkv main_n) [0..<24] @ previous_action;
               kv = (\<lambda>e c. if 5 \<le> c \<and> c < 11 then qkv e c - q ! c else qkv e c)
           in Inr (Some (q, kv, mask), self)))))"

text \<open>The tensor of the entity rows of a result of the legacy encoder (zero when there is none).\<close>

definition old_kv_of ::
  "error + ((real list \<times> tensor2 \<times> (nat \<Rightarrow> real)) option \<times> old_builder) \<Rightarrow> tensor2" where
  "old_kv_of r = (case r of Inr (Some (q, kv, m), s) \<Rightarrow> kv | _ \<Rightarrow> (\<lambda>e c. 0))"

definition old_returned ::
  "error + ((real list \<times> tensor2 \<times> (nat \<Rightarrow> real)) option \<times> old_builder) \<Rightarrow> bool" where
  "old_returned r = (case r of Inr (Some v, s) \<Rightarrow> True | _ \<Rightarrow> False)"

text \<open>
  The game state the example batch encodes, and a legacy encoder after \<^verbatim>\<open>reset\<close>
  with six player rows.
\<close>

definition example_car :: "real \<Rightarrow> physics_object" where
  "example_car x = \<lparr>position = (x, 0, 17), linear_velocity = (0, 0, 0),
     angular_velocity = (0, 0, 0), forward_dir = (1, 0, 0), up_dir = (0, 0, 1)\<rparr>"

definition example_game_state :: game_state where
  "example_game_state =
     \<lparr>state_ball = \<lparr>position = (0, 0, 0), linear_velocity = (0, 0, 0),
          angular_velocity = (0, 0, 0), forward_dir = (0, 0, 0), up_dir = (0, 0, 0)\<rparr>,
      state_players =
        [\<lparr>team_num = 0, car_data = example_car 2300, boost_amount = 1 / 2, is_demoed = False,
           on_ground = True, has_flip = True\<rparr>,
         \<lparr>team_num = 1, car_data = example_car (- 2300), boost_amount = 1 / 2,
           is_demoed = False, on_ground = True, has_flip = True\<rparr>],
      state_boost_pads = replicate 34 1\<rparr>"

definition example_old_builder :: old_builder where
  "example_old_builder =
     \<lparr>old_n_players = 6, old_demo_timers = Some (replicate 6 0),
      old_boost_timers = Some (replicate 34 0), old_current_state = None,
      old_current_qkv = (\<lambda>e c. 0), old_current_mask = (\<lambda>e. 0), old_tick_skip = 8,
      old_boost_locations = (\<lambda>b. (0, 0, 73))\<rparr>"

section \<open>Properties of the timer simulator\<close>

text \<open>
  C1 (timer recurrence).  The claim: the timer returned for tick \<open>i\<close> is the reset constant
  when the state of tick \<open>i\<close> says reset, and otherwise the timer of tick \<open>i - 1\<close> (the
  carried row for \<open>i = 0\<close>) less the tick duration, floored at zero.  The code computes
  timer row \<open>i\<close> of a matrix whose row 0 is the carry from state row \<open>i\<close>, and returns rows
  1 to T: the timer returned for tick \<open>i\<close> is computed from the state of tick \<open>i + 1\<close>,
  the state of tick 0 is never read, and the last tick is computed from the row after the
  end of the state array.  Evaluated on one major pad and one player over two ticks, the pad
  consumed at tick 0 and available at tick 1, the player eliminated at tick 0 only, all
  carried timers zero: with bounds checking the call raises IndexError; without it the
  timers returned for tick 0 are 0 where the claim says 10 and 3.  On the single-tick batch
  with the pad available, nobody eliminated and zero carry, the result is whatever the
  memory after the arrays decides: 10 for the pad when a 0 lies there.
\<close>

theorem update_timers_reads_next_tick:
  "update_timers Checked [0] (\<lambda>b. (0, 0, 73)) [0] 8
       \<lparr>shape1 = 1, rows = [[0], [1]]\<rparr> \<lparr>shape1 = 1, rows = [[1], [0]]\<rparr>
     = Inl IndexError
   \<and> update_timers (Unchecked (\<lambda>name i j. 1)) [0] (\<lambda>b. (0, 0, 73)) [0] 8
       \<lparr>shape1 = 1, rows = [[0], [1]]\<rparr> \<lparr>shape1 = 1, rows = [[1], [0]]\<rparr>
     = Inr (\<lparr>shape1 = 1, rows = [[0], [0]]\<rparr>, \<lparr>shape1 = 1, rows = [[0], [3]]\<rparr>)
   \<and> update_timers (Unchecked (\<lambda>name i j. 0)) [0] (\<lambda>b. (0, 0, 73)) [0] 8
       \<lparr>shape1 = 1, rows = [[1]]\<rparr> \<lparr>shape1 = 1, rows = [[0]]\<rparr>
     = Inr (\<lparr>shape1 = 1, rows = [[10]]\<rparr>, \<lparr>shape1 = 1, rows = [[0]]\<rparr>)"
  by (simp add: update_timers_def zeros2_def setrow0_def shape0_def bind_r_def
      boost_cell_def demo_cell_def loc_z_def getitem2_def setitem2_def in_bounds_def)

text \<open>
  C4 (the timer simulator is total and indexes within bounds).  The claim fails on every
  batch with at least one tick and one pad: the loop index runs from 1 to T over the timer
  matrix, which has T + 1 rows, and the same index reads the state array, which has T rows.
  On the smallest batch, one tick and one pad, the read of \<^verbatim>\<open>boost_states[1, 0]\<close> is
  outside the array: IndexError under bounds checking.
\<close>

theorem update_timers_index_out_of_bounds:
  "\<not> in_bounds \<lparr>shape1 = 1, rows = [[1]]\<rparr> 1 0
   \<and> update_timers Checked [0] (\<lambda>b. (0, 0, 73)) [0] 8
       \<lparr>shape1 = 1, rows = [[1]]\<rparr> \<lparr>shape1 = 1, rows = [[0]]\<rparr>
     = Inl IndexError"
  by (simp add: update_timers_def zeros2_def setrow0_def shape0_def bind_r_def
      boost_cell_def demo_cell_def loc_z_def getitem2_def setitem2_def in_bounds_def)

section \<open>Properties of the orientation resolver\<close>

lemma length_put_masked: "length (put_masked sel r c vals theta) = length theta"
  by (induction sel r c vals theta rule: put_masked.induct) simp_all

lemma masked_Cons:
  "masked (b # sel) (x # xs) = (if b then x # masked sel xs else masked sel xs)"
  by (simp add: masked_def)

lemma masked_Nil: "masked sel [] = []" "masked [] xs = []"
  by (simp_all add: masked_def)

lemma masked_map: "masked sel (map f xs) = map f (masked sel xs)"
proof (induction sel arbitrary: xs)
  case Nil
  then show ?case by (simp add: masked_Nil)
next
  case (Cons b sel)
  then show ?case by (cases xs) (simp_all add: masked_Nil masked_Cons)
qed

lemma masked_zip:
  "length xs = length ys \<Longrightarrow> masked sel (zip xs ys) = zip (masked sel xs) (masked sel ys)"
proof (induction sel arbitrary: xs ys)
  case Nil
  then show ?case by (simp add: masked_Nil)
next
  case (Cons b sel)
  show ?case
  proof (cases xs)
    case Nil
    with Cons.prems show ?thesis by (simp add: masked_Nil)
  next
    case (Cons x xs')
    with Cons.prems obtain y ys' where ys: "ys = y # ys'" "length xs' = length ys'"
      by (cases ys) auto
    with Cons Cons.IH [of xs' ys'] show ?thesis
      by (simp add: masked_Cons)
  qed
qed

lemma masked_self: "masked (map P xs) xs = filter P xs"
  by (induction xs) (simp_all add: masked_Nil masked_Cons)

text \<open>The masked store, read back at one index.\<close>

lemma put_masked_nth:
  "length sel = length theta \<Longrightarrow> length xs = length theta \<Longrightarrow> i < length theta \<Longrightarrow>
   put_masked sel r c (map f (masked sel xs)) theta ! i =
     (if sel ! i then (theta ! i)[r := (theta ! i ! r)[c := f (xs ! i)]] else theta ! i)"
proof (induction sel arbitrary: theta xs i)
  case Nil
  then show ?case by simp
next
  case (Cons b sel)
  from Cons.prems obtain m theta' where th: "theta = m # theta'" "length sel = length theta'"
    by (cases theta) auto
  from Cons.prems th obtain x xs' where xs: "xs = x # xs'" "length xs' = length theta'"
    by (cases xs) auto
  show ?case
  proof (cases i)
    case 0
    with th xs show ?thesis by (cases b) (simp_all add: masked_Cons)
  next
    case (Suc j)
    with Cons.prems th have "j < length theta'" by simp
    from Cons.IH [OF th(2) xs(2) this] Suc th xs show ?thesis
      by (cases b) (simp_all add: masked_Cons)
  qed
qed

lemma divisors_nonzero: "0 \<notin> set (divisors quats)"
  by (simp add: divisors_def Let_def masked_self)

lemma column_ok: "k < shape1 a \<Longrightarrow> column a k = Inr (map (\<lambda>r. r ! k) (rows a))"
  by (simp add: column_def)

lemma quats_to_rot_mtx_total:
  "4 \<le> shape1 quats \<Longrightarrow>
   \<exists>theta. quats_to_rot_mtx quats = Inr theta \<and> length theta = shape0 quats"
  by (simp add: quats_to_rot_mtx_def column_ok bind_r_def Let_def length_put_masked)

lemma quats_to_rot_mtx_nth:
  assumes w: "4 \<le> shape1 quats" and i: "i < shape0 quats"
  shows "\<exists>theta. quats_to_rot_mtx quats = Inr theta \<and>
           theta ! i = (if sq_norm (rows quats ! i) \<noteq> 0 then rot_of (rows quats ! i)
                        else replicate 3 (replicate 3 0))"
proof -
  define sel where "sel = map (\<lambda>n. n \<noteq> 0) (map sq_norm (rows quats))"
  define U where "U = zip (map uminus (map (\<lambda>r. r ! 0) (rows quats)))
    (zip (map uminus (map (\<lambda>r. r ! 1) (rows quats)))
    (zip (map uminus (map (\<lambda>r. r ! 2) (rows quats)))
    (zip (map uminus (map (\<lambda>r. r ! 3) (rows quats)))
         (map (\<lambda>n. 1 / n) (map sq_norm (rows quats))))))"
  have lenU: "length U = shape0 quats" and lensel: "length sel = shape0 quats"
    by (simp_all add: U_def sel_def shape0_def)
  have Ui: "U ! i = (- (rows quats ! i ! 0), - (rows quats ! i ! 1), - (rows quats ! i ! 2),
      - (rows quats ! i ! 3), 1 / sq_norm (rows quats ! i))"
    using i by (simp add: U_def shape0_def)
  have seli: "sel ! i = (sq_norm (rows quats ! i) \<noteq> 0)"
    using i by (simp add: sel_def shape0_def)
  have v: "zip (masked sel (map uminus (map (\<lambda>r. r ! 0) (rows quats))))
    (zip (masked sel (map uminus (map (\<lambda>r. r ! 1) (rows quats))))
    (zip (masked sel (map uminus (map (\<lambda>r. r ! 2) (rows quats))))
    (zip (masked sel (map uminus (map (\<lambda>r. r ! 3) (rows quats))))
         (map (\<lambda>n. 1 / n) (masked sel (map sq_norm (rows quats))))))) = masked sel U"
    by (simp add: U_def masked_zip masked_map del: map_map)
  have q: "quats_to_rot_mtx quats = Inr
     (put_masked sel 2 2 (map (\<lambda>(w, x, y, z, s). 1 - 2 * s * (x * x + y * y)) (masked sel U))
     (put_masked sel 1 2 (map (\<lambda>(w, x, y, z, s). 2 * s * (y * z - x * w)) (masked sel U))
     (put_masked sel 0 2 (map (\<lambda>(w, x, y, z, s). 2 * s * (x * z + y * w)) (masked sel U))
     (put_masked sel 2 1 (map (\<lambda>(w, x, y, z, s). 2 * s * (y * z + x * w)) (masked sel U))
     (put_masked sel 1 1 (map (\<lambda>(w, x, y, z, s). 1 - 2 * s * (x * x + z * z)) (masked sel U))
     (put_masked sel 0 1 (map (\<lambda>(w, x, y, z, s). 2 * s * (x * y - z * w)) (masked sel U))
     (put_masked sel 2 0 (map (\<lambda>(w, x, y, z, s). 2 * s * (x * z - y * w)) (masked sel U))
     (put_masked sel 1 0 (map (\<lambda>(w, x, y, z, s). 2 * s * (x * y + z * w)) (masked sel U))
     (put_masked sel 0 0 (map (\<lambda>(w, x, y, z, s). 1 - 2 * s * (y * y + z * z)) (masked sel U))
       (replicate (shape0 quats) (replicate 3 (replicate 3 0))))))))))))"
    using w
    unfolding quats_to_rot_mtx_def Let_def divisors_def sel_def [symmetric]
    by (simp only: column_ok bind_r_def sum.case v)
  have r3: "replicate 3 (replicate 3 (0::real)) = [[0, 0, 0], [0, 0, 0], [0, 0, 0]]"
    by (simp add: numeral_3_eq_3)
  show ?thesis
    unfolding q using i
    by (simp add: length_put_masked put_masked_nth lensel lenU Ui seli rot_of_def Let_def r3)
qed

text \<open>
  C7 (zero-norm quaternions).  For every array of quaternions (at least the four columns
  the code reads) the call returns one matrix per row and raises nothing; no number it
  divides by is zero; a row of squared norm zero gets the zero matrix, so its forward and
  up vectors are zero; a row of nonzero squared norm gets the basis of the formula.
\<close>

theorem quats_to_rot_mtx_zero_norm:
  assumes "4 \<le> shape1 quats"
  shows "\<exists>theta. quats_to_rot_mtx quats = Inr theta \<and> length theta = shape0 quats
           \<and> 0 \<notin> set (divisors quats)
           \<and> (\<forall>i < shape0 quats.
                 (sq_norm (rows quats ! i) = 0 \<longrightarrow>
                    theta ! i = replicate 3 (replicate 3 0)
                    \<and> forward_of (theta ! i) = [0, 0, 0] \<and> up_of (theta ! i) = [0, 0, 0])
               \<and> (sq_norm (rows quats ! i) \<noteq> 0 \<longrightarrow> theta ! i = rot_of (rows quats ! i)))"
proof -
  from quats_to_rot_mtx_total [OF assms] obtain theta
    where th: "quats_to_rot_mtx quats = Inr theta" "length theta = shape0 quats"
    by blast
  have "(sq_norm (rows quats ! i) = 0 \<longrightarrow>
            theta ! i = replicate 3 (replicate 3 0)
            \<and> forward_of (theta ! i) = [0, 0, 0] \<and> up_of (theta ! i) = [0, 0, 0])
        \<and> (sq_norm (rows quats ! i) \<noteq> 0 \<longrightarrow> theta ! i = rot_of (rows quats ! i))"
    if "i < shape0 quats" for i
    using quats_to_rot_mtx_nth [OF assms that] th(1)
    by (auto simp: forward_of_def up_of_def numeral_3_eq_3)
  with th divisors_nonzero show ?thesis
    by blast
qed

theorem quats_to_rot_mtx_zero_norm_witness:
  "4 \<le> shape1 \<lparr>shape1 = 4, rows = [[0, 0, 0, 0], [1, 0, 0, 0]]\<rparr>
   \<and> (\<exists>theta. quats_to_rot_mtx \<lparr>shape1 = 4, rows = [[0, 0, 0, 0], [1, 0, 0, 0]]\<rparr> = Inr theta
         \<and> length theta = 2
         \<and> theta ! 0 = [[0, 0, 0], [0, 0, 0], [0, 0, 0]]
         \<and> theta ! 1 = [[1, 0, 0], [0, 1, 0], [0, 0, 1]])"
proof -
  let ?Q = "\<lparr>shape1 = 4, rows = [[0, 0, 0, 0], [1, 0, 0, 0 :: real]]\<rparr>"
  have w: "4 \<le> shape1 ?Q" by simp
  from quats_to_rot_mtx_zero_norm [OF w] obtain theta where
    th: "quats_to_rot_mtx ?Q = Inr theta" "length theta = shape0 ?Q"
    and each: "\<forall>i < shape0 ?Q.
        (sq_norm (rows ?Q ! i) = 0 \<longrightarrow> theta ! i = replicate 3 (replicate 3 0)
           \<and> forward_of (theta ! i) = [0, 0, 0] \<and> up_of (theta ! i) = [0, 0, 0])
      \<and> (sq_norm (rows ?Q ! i) \<noteq> 0 \<longrightarrow> theta ! i = rot_of (rows ?Q ! i))"
    by blast
  from each have "theta ! 0 = replicate 3 (replicate 3 0)"
    by (simp add: shape0_def sq_norm_def)
  moreover from each have "theta ! 1 = rot_of [1, 0, 0, 0]"
    by (simp add: shape0_def sq_norm_def)
  ultimately show ?thesis
    using th by (simp add: shape0_def rot_of_def sq_norm_def numeral_3_eq_3)
qed

section \<open>Properties of the team normalizer\<close>

lemma builder_invert_set: "x \<in> set builder_invert \<Longrightarrow> x * x = 1"
  by (auto simp: builder_invert_def)

lemma builder_invert_length: "length builder_invert = 55"
  by (simp add: builder_invert_def length_concat sum_list_replicate)

lemma builder_invert_sq: "c < 55 \<Longrightarrow> builder_invert ! c * builder_invert ! c = 1"
  using builder_invert_set [of "builder_invert ! c"] by (simp add: builder_invert_length)

lemma builder_invert_low: "c < 5 \<Longrightarrow> builder_invert ! c = 1"
  by (simp add: builder_invert_def nth_append)

text \<open>
  C8 (the inversion is an involution).  Multiplying by the mask and swapping the teammate
  and opponent channels, done twice, gives back every tensor.
\<close>

theorem team_invert_involution: "team_invert (team_invert kvp) = kvp"
proof (intro ext)
  fix t e c
  have one: "builder_invert ! Suc 0 = 1" and two: "builder_invert ! 2 = 1"
    by (simp_all add: builder_invert_low)
  show "team_invert (team_invert kvp) t e c = kvp t e c"
  proof (cases "c < 55")
    case True
    then have "kvp t e c * builder_invert ! c * builder_invert ! c = kvp t e c"
      by (simp add: builder_invert_sq mult.assoc)
    with True show ?thesis
      by (simp add: team_invert_def swap_teams_def mul_invert_def one two)
  next
    case False
    then show ?thesis
      by (simp add: team_invert_def swap_teams_def mul_invert_def)
  qed
qed

section \<open>Properties of the frame transformer\<close>

lemma add_relative_components_low:
  "c < 10 \<Longrightarrow> add_relative_components q kv p t e c = kv p t e c"
  by (simp add: add_relative_components_def Let_def; arith)

lemma add_relative_components_mid:
  "16 \<le> c \<Longrightarrow> c < 25 \<Longrightarrow> add_relative_components q kv p t e c = kv p t e c"
  by (simp add: add_relative_components_def Let_def; arith)

lemma add_relative_components_shifted:
  "10 \<le> c \<Longrightarrow> c < 16 \<Longrightarrow>
   add_relative_components q kv p t e c = kv p t e c - q p t 0 (c - 5)"
  by (simp add: add_relative_components_def Let_def; arith)

text \<open>
  C3 (the frame transformer only appends).  The claim fails: the subtraction that makes
  positions and velocities relative is done in place on a view of the base channels, at
  the offsets 5 to 10 of the view, which are the channels 10 to 15 of the tensor.  With an
  observing player at position x = 1 and a tensor of zeros, channel 10 (the vertical
  velocity) of the entity row is - 1 after the call where it was 0 before; the same
  happens to the forward vector and to the first two components of the up vector.
\<close>

theorem add_relative_components_changes_base:
  "add_relative_components (\<lambda>p t e c. if c = 5 then 1 else 0) (\<lambda>p t e c. 0) 0 0 0 10 = - 1"
  by (simp add: add_relative_components_def Let_def)

section \<open>Results, loops and invariants\<close>

lemma bind_r_Inr [simp]: "bind_r (Inr x) f = f x"
  by (simp add: bind_r_def)

lemma bind_r_Inl [simp]: "bind_r (Inl e) f = Inl e"
  by (simp add: bind_r_def)

lemma bind_r_eq_Inr:
  "bind_r m f = Inr y \<longleftrightarrow> (\<exists>x. m = Inr x \<and> f x = Inr y)"
  by (cases m) simp_all

lemma for_each_inv:
  assumes "I s"
    and "\<And>x s. x \<in> set xs \<Longrightarrow> I s \<Longrightarrow> \<exists>s'. body x s = Inr s' \<and> I s'"
  shows "\<exists>s'. for_each xs body s = Inr s' \<and> I s'"
  using assms
proof (induction xs arbitrary: s)
  case Nil
  then show ?case by simp
next
  case (Cons x xs)
  from Cons.prems(2) [of x s] Cons.prems(1) obtain s1 where s1: "body x s = Inr s1" "I s1"
    by auto
  from Cons.IH [OF s1(2)] Cons.prems(2) obtain s' where "for_each xs body s1 = Inr s'" "I s'"
    by auto
  with s1 show ?case by simp
qed

lemma shaped_setitem2:
  "shaped n m a \<Longrightarrow> i < n \<Longrightarrow> j < m \<Longrightarrow> \<exists>a'. setitem2 a i j v = Inr a' \<and> shaped n m a'"
  unfolding shaped_def setitem2_def in_bounds_def
  by (auto dest!: set_update_subset_insert [THEN subsetD])

lemma getitem2_unchecked: "\<exists>v. getitem2 (Unchecked g) name a i j = Inr v"
  by (simp add: getitem2_def)

lemma boost_cell_unchecked:
  assumes "shaped n m tm" "i < n" "b < m"
  shows "\<exists>tm'. boost_cell (Unchecked g) locs ts states i b tm = Inr tm' \<and> shaped n m tm'"
proof -
  obtain s where s: "getitem2 (Unchecked g) BoostStates states i b = Inr s"
    using getitem2_unchecked by blast
  obtain prev where prev: "getitem2 (Unchecked g) BoostTimers tm (i - Suc 0) b = Inr prev"
    using getitem2_unchecked by blast
  show ?thesis
    using shaped_setitem2 [OF assms] assms(1)
    by (auto simp: boost_cell_def s prev)
qed

lemma demo_cell_unchecked:
  assumes "shaped n m tm" "i < n" "b < m"
  shows "\<exists>tm'. demo_cell (Unchecked g) ts states i b tm = Inr tm' \<and> shaped n m tm'"
proof -
  obtain s where s: "getitem2 (Unchecked g) DemoStates states i b = Inr s"
    using getitem2_unchecked by blast
  obtain prev where prev: "getitem2 (Unchecked g) DemoTimers tm (i - Suc 0) b = Inr prev"
    using getitem2_unchecked by blast
  show ?thesis
    using shaped_setitem2 [OF assms] assms(1)
    by (auto simp: demo_cell_def s prev)
qed

lemma shaped_setrow0:
  assumes "fits (length src) m"
  shows "\<exists>a. setrow0 (zeros2 (Suc n) m) src = Inr a \<and> shaped (Suc n) m a"
  using assms
  unfolding setrow0_def zeros2_def shaped_def fits_def
  by (auto dest!: set_update_subset_insert [THEN subsetD])

lemma update_timers_unchecked:
  assumes "fits (length bt) (shape1 bs)" "fits (length dt) (shape1 ds)"
  shows "\<exists>B D. update_timers (Unchecked g) bt locs dt ts bs ds = Inr (B, D)
           \<and> shaped (shape0 bs) (shape1 bs) B \<and> shaped (shape0 ds) (shape1 ds) D"
proof -
  from shaped_setrow0 [OF assms(1), of "shape0 bs"] obtain b0 where
    b0: "setrow0 (zeros2 (Suc (shape0 bs)) (shape1 bs)) bt = Inr b0"
        "shaped (Suc (shape0 bs)) (shape1 bs) b0"
    by auto
  have "\<exists>b1. for_each [Suc 0..<shape0 b0]
            (\<lambda>i. for_each [0..<shape1 b0] (boost_cell (Unchecked g) locs ts bs i)) b0 = Inr b1
          \<and> shaped (Suc (shape0 bs)) (shape1 bs) b1"
  proof (rule for_each_inv [where I = "shaped (Suc (shape0 bs)) (shape1 bs)", OF b0(2)])
    fix i s assume i: "i \<in> set [Suc 0..<shape0 b0]" and s: "shaped (Suc (shape0 bs)) (shape1 bs) s"
    from i b0(2) have i': "i < Suc (shape0 bs)" by (simp add: shaped_def shape0_def)
    show "\<exists>s'. for_each [0..<shape1 b0] (boost_cell (Unchecked g) locs ts bs i) s = Inr s'
            \<and> shaped (Suc (shape0 bs)) (shape1 bs) s'"
    proof (rule for_each_inv [where I = "shaped (Suc (shape0 bs)) (shape1 bs)", OF s])
      fix b s2 assume "b \<in> set [0..<shape1 b0]" and "shaped (Suc (shape0 bs)) (shape1 bs) s2"
      with b0(2) i' show "\<exists>s'. boost_cell (Unchecked g) locs ts bs i b s2 = Inr s'
          \<and> shaped (Suc (shape0 bs)) (shape1 bs) s'"
        by (intro boost_cell_unchecked) (simp_all add: shaped_def)
    qed
  qed
  then obtain b1 where b1: "for_each [Suc 0..<shape0 b0]
            (\<lambda>i. for_each [0..<shape1 b0] (boost_cell (Unchecked g) locs ts bs i)) b0 = Inr b1"
          "shaped (Suc (shape0 bs)) (shape1 bs) b1" by blast
  from shaped_setrow0 [OF assms(2), of "shape0 ds"] obtain d0 where
    d0: "setrow0 (zeros2 (Suc (shape0 ds)) (shape1 ds)) dt = Inr d0"
        "shaped (Suc (shape0 ds)) (shape1 ds) d0"
    by auto
  have "\<exists>d1. for_each [Suc 0..<shape0 d0]
            (\<lambda>i. for_each [0..<shape1 d0] (demo_cell (Unchecked g) ts ds i)) d0 = Inr d1
          \<and> shaped (Suc (shape0 ds)) (shape1 ds) d1"
  proof (rule for_each_inv [where I = "shaped (Suc (shape0 ds)) (shape1 ds)", OF d0(2)])
    fix i s assume i: "i \<in> set [Suc 0..<shape0 d0]" and s: "shaped (Suc (shape0 ds)) (shape1 ds) s"
    from i d0(2) have i': "i < Suc (shape0 ds)" by (simp add: shaped_def shape0_def)
    show "\<exists>s'. for_each [0..<shape1 d0] (demo_cell (Unchecked g) ts ds i) s = Inr s'
            \<and> shaped (Suc (shape0 ds)) (shape1 ds) s'"
    proof (rule for_each_inv [where I = "shaped (Suc (shape0 ds)) (shape1 ds)", OF s])
      fix b s2 assume "b \<in> set [0..<shape1 d0]" and "shaped (Suc (shape0 ds)) (shape1 ds) s2"
      with d0(2) i' show "\<exists>s'. demo_cell (Unchecked g) ts ds i b s2 = Inr s'
          \<and> shaped (Suc (shape0 ds)) (shape1 ds) s'"
        by (intro demo_cell_unchecked) (simp_all add: shaped_def)
    qed
  qed
  then obtain d1 where d1: "for_each [Suc 0..<shape0 d0]
            (\<lambda>i. for_each [0..<shape1 d0] (demo_cell (Unchecked g) ts ds i)) d0 = Inr d1"
          "shaped (Suc (shape0 ds)) (shape1 ds) d1" by blast
  have "shaped (shape0 bs) (shape1 bs) (b1\<lparr>rows := drop (Suc 0) (rows b1)\<rparr>)"
    using b1(2) by (auto simp: shaped_def dest: in_set_dropD)
  moreover have "shaped (shape0 ds) (shape1 ds) (d1\<lparr>rows := drop (Suc 0) (rows d1)\<rparr>)"
    using d1(2) by (auto simp: shaped_def dest: in_set_dropD)
  ultimately show ?thesis
    by (simp add: update_timers_def b0(1) b1(1) d0(1) d1(1))
qed

section \<open>The builder in natural numbers\<close>

lemma n_players_neg:
  "pl \<noteq> 0 \<Longrightarrow> ((int W - int ps) div int pl < 0) = (W < ps)"
  by (auto simp: pos_imp_zdiv_neg_iff)

lemma n_players_nat:
  assumes "ps \<le> W"
  shows "nat ((int W - int ps) div int pl) = (W - ps) div pl"
proof -
  have "int W - int ps = int (W - ps)" using assms by simp
  then have "(int W - int ps) div int pl = int ((W - ps) div pl)"
    by (simp only: zdiv_int)
  then show ?thesis by simp
qed

lemma lim_players_nat:
  "ps \<le> W \<Longrightarrow>
   nat (case c of None \<Rightarrow> (int W - int ps) div int pl | Some c \<Rightarrow> int c)
     = (case c of None \<Rightarrow> (W - ps) div pl | Some c \<Rightarrow> c)"
  by (cases c) (simp_all only: n_players_nat option.case nat_int)

lemma lim_players_nonneg:
  assumes "ps \<le> W"
  shows "0 \<le> (case c of None \<Rightarrow> (int W - int ps) div int pl | Some c \<Rightarrow> int c)"
proof (cases c)
  case None
  have "int W - int ps = int (W - ps)" using assms by simp
  then have "(int W - int ps) div int pl = int ((W - ps) div pl)"
    by (simp only: zdiv_int)
  with None show ?thesis by simp
next
  case (Some a)
  then show ?thesis by simp
qed

lemma bind_r_cong: "(\<And>x. f x = g x) \<Longrightarrow> bind_r m f = bind_r m g"
  by (cases m) simp_all

lemma batched_build_obs_unfold:
  "batched_build_obs L pol self es =
     (if PLAYER_INFO_LENGTH L = 0 then Inl ZeroDivisionError
      else bind_r (update_timers pol (self_boost_timers self) (self_boost_locations self)
               (self_demo_timers self) (self_tick_skip self)
               (cols es 3 (3 + 34))
               (cols_step es (players_start L + 33) (PLAYER_INFO_LENGTH L)))
        (\<lambda>(bt, dt).
           if rows bt = [] \<or> rows dt = [] then Inl IndexError
           else if shape1 es < players_start L then Inl ValueError
           else after_timers L self es bt dt))"
proof (cases "PLAYER_INFO_LENGTH L = 0")
  case True
  then show ?thesis by (simp add: batched_build_obs_def Let_def)
next
  case pl: False
  show ?thesis
  proof (cases "shape1 es < players_start L")
    case True
    with pl have neg: "(int (shape1 es) - int (3 + BOOST_PADS_LENGTH L + BALL_STATE_LENGTH L))
        div int (PLAYER_INFO_LENGTH L) < 0"
      using n_players_neg [OF pl, of "shape1 es" "3 + BOOST_PADS_LENGTH L + BALL_STATE_LENGTH L"]
      unfolding players_start_def by blast
    show ?thesis
      unfolding batched_build_obs_def Let_def
      using pl True neg
      by (auto simp: players_start_def intro!: bind_r_cong)
  next
    case False
    then have ge: "3 + BOOST_PADS_LENGTH L + BALL_STATE_LENGTH L \<le> shape1 es"
      by (simp add: players_start_def)
    have lim: "0 \<le> (case self_n_players self of
          None \<Rightarrow> (int (shape1 es) - int (3 + BOOST_PADS_LENGTH L + BALL_STATE_LENGTH L))
                    div int (PLAYER_INFO_LENGTH L)
        | Some c \<Rightarrow> int c)"
      using lim_players_nonneg [OF ge] .
    have nneg: "\<not> (int (shape1 es) - int (3 + BOOST_PADS_LENGTH L + BALL_STATE_LENGTH L))
        div int (PLAYER_INFO_LENGTH L) < 0"
      using False
        n_players_neg [OF pl, of "shape1 es" "3 + BOOST_PADS_LENGTH L + BALL_STATE_LENGTH L"]
      unfolding players_start_def by blast
    have E: "nat ((case self_n_players self of
          None \<Rightarrow> (int (shape1 es) - int (3 + BOOST_PADS_LENGTH L + BALL_STATE_LENGTH L))
                    div int (PLAYER_INFO_LENGTH L)
        | Some c \<Rightarrow> int c) + 1 + 34) = capacity self (player_count L es) + 35"
      using lim lim_players_nat [OF ge, where c = "self_n_players self" and pl = "PLAYER_INFO_LENGTH L"]
      by (simp add: capacity_def player_count_def players_start_def nat_add_distrib)
    have lim': "nat (case self_n_players self of
          None \<Rightarrow> (int (shape1 es) - int (3 + BOOST_PADS_LENGTH L + BALL_STATE_LENGTH L))
                    div int (PLAYER_INFO_LENGTH L)
        | Some c \<Rightarrow> int c) = capacity self (player_count L es)"
      using lim_players_nat [OF ge, where c = "self_n_players self" and pl = "PLAYER_INFO_LENGTH L"]
      by (simp add: capacity_def player_count_def players_start_def)
    have P: "nat ((int (shape1 es) - int (3 + BOOST_PADS_LENGTH L + BALL_STATE_LENGTH L))
        div int (PLAYER_INFO_LENGTH L)) = player_count L es"
      using n_players_nat [OF ge] by (simp add: player_count_def players_start_def)
    have nE: "\<not> (case self_n_players self of
          None \<Rightarrow> (int (shape1 es) - int (3 + BOOST_PADS_LENGTH L + BALL_STATE_LENGTH L))
                    div int (PLAYER_INFO_LENGTH L)
        | Some c \<Rightarrow> int c) + 1 + 34 < 0"
      using lim by simp
    have pl': "(PLAYER_INFO_LENGTH L = 0) = False" using pl by simp
    have nneg': "((int (shape1 es) - int (3 + BOOST_PADS_LENGTH L + BALL_STATE_LENGTH L))
        div int (PLAYER_INFO_LENGTH L) < 0) = False" using nneg by simp
    have nE': "((case self_n_players self of
          None \<Rightarrow> (int (shape1 es) - int (3 + BOOST_PADS_LENGTH L + BALL_STATE_LENGTH L))
                    div int (PLAYER_INFO_LENGTH L)
        | Some c \<Rightarrow> int c) + 1 + 34 < 0) = False" using nE by simp
    have F': "(shape1 es < players_start L) = False" using False by simp
    show ?thesis
      unfolding batched_build_obs_def Let_def after_timers_def pl' nneg' nE' E lim' P F'
        if_False simp_thms
      unfolding players_start_def [symmetric]
      by (rule refl)
  qed
qed

section \<open>The loop over the players returns\<close>

lemma shape1_cols: "shape1 (cols a lo hi) = min hi (shape1 a) - lo"
  by (simp add: cols_def)

lemma rows_cols: "rows (cols a lo hi) = map (\<lambda>r. take (hi - lo) (drop lo r)) (rows a)"
  by (simp add: cols_def)

lemma shape0_cols: "shape0 (cols a lo hi) = shape0 a"
  by (simp add: cols_def shape0_def)

lemma put_block_Inr:
  "fits (shape1 src) n \<Longrightarrow> \<exists>kv'. put_block e c0 n src kv = Inr kv'"
  by (simp add: put_block_def)

lemma block_fits:
  "shape1 ep = pl \<Longrightarrow> z = x + 2 \<Longrightarrow> z < pl \<Longrightarrow> fits (shape1 (cols ep x (z + 1))) 3"
  by (simp add: shape1_cols fits_def)

lemma quat_block_wide:
  "shape1 ep = pl \<Longrightarrow> z = x + 3 \<Longrightarrow> z < pl \<Longrightarrow> 4 \<le> shape1 (cols ep x (z + 1))"
  by (simp add: shape1_cols)

lemma player_block_width:
  "ps + (i + 1) * pl \<le> shape1 es \<Longrightarrow> shape1 (cols es (ps + i * pl) (ps + (i + 1) * pl)) = pl"
  by (simp add: shape1_cols min_def)

lemma player_step_total:
  assumes wf: "wf_layout L"
    and w: "players_start L + (i + 1) * PLAYER_INFO_LENGTH L \<le> shape1 es"
    and e: "i < E" and d: "i < shape1 dt"
  shows "\<exists>kv'. player_step L es dt E i kv = Inr kv'"
proof -
  define ep where "ep = cols es (players_start L + i * PLAYER_INFO_LENGTH L)
     (players_start L + (i + 1) * PLAYER_INFO_LENGTH L)"
  have ep: "shape1 ep = PLAYER_INFO_LENGTH L"
    unfolding ep_def using w by (rule player_block_width)
  have pos: "fits (shape1 (cols ep (CAR_POS_X L) (CAR_POS_Z L + 1))) 3"
    using wf by (intro block_fits [OF ep]) (simp_all add: wf_layout_def)
  have lin: "fits (shape1 (cols ep (CAR_LINEAR_VEL_X L) (CAR_LINEAR_VEL_Z L + 1))) 3"
    using wf by (intro block_fits [OF ep]) (simp_all add: wf_layout_def)
  have ang: "fits (shape1 (cols ep (CAR_ANGULAR_VEL_X L) (CAR_ANGULAR_VEL_Z L + 1))) 3"
    using wf by (intro block_fits [OF ep]) (simp_all add: wf_layout_def)
  have "4 \<le> shape1 (cols ep (CAR_QUAT_W L) (CAR_QUAT_Z L + 1))"
    using wf by (intro quat_block_wide [OF ep]) (simp_all add: wf_layout_def)
  from quats_to_rot_mtx_total [OF this] obtain rot where
    rot: "quats_to_rot_mtx (cols ep (CAR_QUAT_W L) (CAR_QUAT_Z L + 1)) = Inr rot"
    by blast
  then have rot': "quats_to_rot_mtx (cols ep (CAR_QUAT_W L) (Suc (CAR_QUAT_Z L))) = Inr rot"
    by simp
  have c: "column ep (BOOST_AMOUNT L) = Inr (map (\<lambda>r. r ! BOOST_AMOUNT L) (rows ep))"
    "column ep (ON_GROUND L) = Inr (map (\<lambda>r. r ! ON_GROUND L) (rows ep))"
    "column ep (HAS_FLIP L) = Inr (map (\<lambda>r. r ! HAS_FLIP L) (rows ep))"
    "column ep (HAS_JUMP L) = Inr (map (\<lambda>r. r ! HAS_JUMP L) (rows ep))"
    using wf by (simp_all add: ep wf_layout_def column_ok)
  have dcol: "column dt i = Inr (map (\<lambda>r. r ! i) (rows dt))"
    using d by (rule column_ok)
  show ?thesis
    unfolding player_step_def Let_def players_start_def [symmetric] ep_def [symmetric]
    using e pos lin ang
    by (simp add: rot' put_block_def c dcol)
qed

lemma div_of_parts: "r < pl \<Longrightarrow> b = q * pl + r \<Longrightarrow> b div pl = (q::nat)"
  by simp

lemma count_teams:
  assumes "34 \<le> pl" "a mod pl \<le> 1"
  shows "(a - 1 + pl - 1) div pl = a div (pl::nat)"
proof -
  have a: "a = (a div pl) * pl + a mod pl" by simp
  consider "a mod pl = 0" "a div pl = 0" | "a mod pl = 0" "0 < a div pl" | "a mod pl = 1"
    using assms(2) by linarith
  then show ?thesis
  proof cases
    case 1
    with a have "a = 0" by simp
    with assms(1) show ?thesis by simp
  next
    case 2
    then obtain q where q: "a div pl = Suc q" by (cases "a div pl") auto
    with a 2 have "a = Suc q * pl" by simp
    then have "a - 1 + pl - 1 = Suc q * pl + (pl - 2)" using assms(1) by simp
    moreover have "pl - 2 < pl" using assms(1) by simp
    ultimately have "(a - 1 + pl - 1) div pl = Suc q" by (intro div_of_parts)
    with q show ?thesis by simp
  next
    case 3
    with a have "a = (a div pl) * pl + 1" by simp
    then have "a - 1 + pl - 1 = (a div pl) * pl + (pl - 1)" using assms(1) by simp
    moreover have "pl - 1 < pl" using assms(1) by simp
    ultimately show ?thesis by (intro div_of_parts)
  qed
qed

lemma count_demo:
  assumes "34 \<le> pl" "a mod pl \<le> 1"
  shows "(a - 33 + pl - 1) div pl = a div (pl::nat)"
proof -
  have a: "a = (a div pl) * pl + a mod pl" by simp
  show ?thesis
  proof (cases "a div pl")
    case 0
    with a assms(2) have "a \<le> 1" by simp
    then have "a - 33 + pl - 1 = 0 * pl + (pl - 1)" by simp
    moreover have "pl - 1 < pl" using assms(1) by simp
    ultimately have "(a - 33 + pl - 1) div pl = 0" by (intro div_of_parts)
    with 0 show ?thesis by simp
  next
    case (Suc q)
    with a have "a = Suc q * pl + a mod pl" by simp
    then have "a - 33 + pl - 1 = Suc q * pl + (pl + a mod pl - 34)"
      using assms(1) by simp
    moreover have "pl + a mod pl - 34 < pl" using assms by simp
    ultimately have "(a - 33 + pl - 1) div pl = Suc q" by (intro div_of_parts)
    with Suc show ?thesis by simp
  qed
qed

lemma length_strided: "length (strided r start step) = (length r - start + step - 1) div step"
  by (simp add: strided_def)

lemma rect_row0: "rect es \<Longrightarrow> rows es \<noteq> [] \<Longrightarrow> length (rows es ! 0) = shape1 es"
  by (cases "rows es") (simp_all add: rect_def)

lemma teams_length:
  assumes "rect es" "rows es \<noteq> []" "33 < PLAYER_INFO_LENGTH L"
    "(shape1 es - players_start L) mod PLAYER_INFO_LENGTH L \<le> 1"
  shows "length (strided (rows es ! 0) (players_start L + 1) (PLAYER_INFO_LENGTH L))
           = player_count L es"
proof -
  from count_teams [of "PLAYER_INFO_LENGTH L" "shape1 es - players_start L"] assms
  have "(shape1 es - players_start L - 1 + PLAYER_INFO_LENGTH L - 1) div PLAYER_INFO_LENGTH L
      = player_count L es"
    by (simp add: player_count_def)
  then show ?thesis
    using assms(1,2) by (simp add: length_strided rect_row0)
qed

lemma demo_columns:
  assumes "33 < PLAYER_INFO_LENGTH L"
    "(shape1 es - players_start L) mod PLAYER_INFO_LENGTH L \<le> 1"
  shows "shape1 (cols_step es (players_start L + 33) (PLAYER_INFO_LENGTH L)) = player_count L es"
proof -
  from count_demo [of "PLAYER_INFO_LENGTH L" "shape1 es - players_start L"] assms
  have "(shape1 es - players_start L - 33 + PLAYER_INFO_LENGTH L - 1) div PLAYER_INFO_LENGTH L
      = player_count L es"
    by (simp add: player_count_def)
  then show ?thesis
    by (simp add: cols_step_def)
qed

lemma player_block_inside:
  assumes "players_start L \<le> shape1 es" "i < player_count L es"
  shows "players_start L + (i + 1) * PLAYER_INFO_LENGTH L \<le> shape1 es"
proof -
  have "(i + 1) * PLAYER_INFO_LENGTH L \<le> player_count L es * PLAYER_INFO_LENGTH L"
    using assms(2) by (intro mult_le_mono1) simp
  also have "\<dots> \<le> shape1 es - players_start L"
    by (simp add: player_count_def)
  finally show ?thesis using assms(1) by simp
qed

lemma after_timers_total:
  assumes wf: "wf_layout L" and ne: "rows es \<noteq> []" and rect: "rect es"
    and w: "players_start L \<le> shape1 es"
    and sur: "(shape1 es - players_start L) mod PLAYER_INFO_LENGTH L \<le> 1"
    and bt: "shape1 bt = 34" and dt: "shape1 dt = player_count L es"
    and cap: "player_count L es \<le> capacity self (player_count L es) + 35"
  shows "\<exists>kv. after_timers L self es bt dt =
           Inr (observations (strided (rows es ! 0) (players_start L + 1) (PLAYER_INFO_LENGTH L))
                  (player_count L es) (capacity self (player_count L es))
                  (capacity self (player_count L es) + 35) kv,
                self\<lparr>self_boost_timers := last (rows bt), self_demo_timers := last (rows dt)\<rparr>)
         \<and> for_each [0..<player_count L es]
              (player_step L es dt (capacity self (player_count L es) + 35))
              (base_rows (self_boost_locations self)
                 (cols es (3 + BOOST_PADS_LENGTH L) (3 + BOOST_PADS_LENGTH L + 9)) bt
                 (strided (rows es ! 0) (players_start L + 1) (PLAYER_INFO_LENGTH L))
                 (player_count L es) (capacity self (player_count L es))
                 (capacity self (player_count L es) + 35)) = Inr kv"
proof -
  have pl: "33 < PLAYER_INFO_LENGTH L" using wf by (simp add: wf_layout_def)
  have teams: "length (strided (rows es ! 0) (players_start L + 1) (PLAYER_INFO_LENGTH L))
           = player_count L es"
    using rect ne pl sur by (rule teams_length)
  have ball: "fits (shape1 (cols es (3 + BOOST_PADS_LENGTH L) (3 + BOOST_PADS_LENGTH L + 9))) 9"
    using wf w by (simp add: shape1_cols fits_def wf_layout_def players_start_def min_def)
  have "\<exists>kv. for_each [0..<player_count L es]
              (player_step L es dt (capacity self (player_count L es) + 35))
              (base_rows (self_boost_locations self)
                 (cols es (3 + BOOST_PADS_LENGTH L) (3 + BOOST_PADS_LENGTH L + 9)) bt
                 (strided (rows es ! 0) (players_start L + 1) (PLAYER_INFO_LENGTH L))
                 (player_count L es) (capacity self (player_count L es))
                 (capacity self (player_count L es) + 35)) = Inr kv \<and> True"
  proof (rule for_each_inv [where I = "\<lambda>_. True"])
    fix i and s :: tensor4
    assume "i \<in> set [0..<player_count L es]"
    then have i: "i < player_count L es" by simp
    from player_step_total [OF wf player_block_inside [OF w i], of "capacity self (player_count L es) + 35" dt s]
      i cap dt
    show "\<exists>s'. player_step L es dt (capacity self (player_count L es) + 35) i s = Inr s' \<and> True"
      by simp
  qed simp
  then obtain kv where kv: "for_each [0..<player_count L es]
              (player_step L es dt (capacity self (player_count L es) + 35))
              (base_rows (self_boost_locations self)
                 (cols es (3 + BOOST_PADS_LENGTH L) (3 + BOOST_PADS_LENGTH L + 9)) bt
                 (strided (rows es ! 0) (players_start L + 1) (PLAYER_INFO_LENGTH L))
                 (player_count L es) (capacity self (player_count L es))
                 (capacity self (player_count L es) + 35)) = Inr kv"
    by blast
  show ?thesis
    unfolding after_timers_def Let_def
    using ball bt teams cap kv
    by (simp add: fits_def min_def)
qed

lemma shaped_rows_nonempty: "shaped n m a \<Longrightarrow> 0 < n \<Longrightarrow> rows a \<noteq> []"
  by (auto simp: shaped_def)

lemma batched_build_obs_unchecked_total:
  assumes wf: "wf_layout L" and ne: "rows es \<noteq> []" and rect: "rect es"
    and w: "players_start L \<le> shape1 es"
    and sur: "(shape1 es - players_start L) mod PLAYER_INFO_LENGTH L \<le> 1"
    and bt: "length (self_boost_timers self) = 34"
    and dt: "length (self_demo_timers self) = player_count L es"
    and cap: "player_count L es \<le> capacity self (player_count L es) + 35"
  shows "\<exists>outs self'. batched_build_obs L (Unchecked g) self es = Inr (outs, self')
           \<and> length outs = player_count L es"
proof -
  define bs where "bs = cols es 3 (3 + 34)"
  define ds where "ds = cols_step es (players_start L + 33) (PLAYER_INFO_LENGTH L)"
  have pl: "33 < PLAYER_INFO_LENGTH L" using wf by (simp add: wf_layout_def)
  have b34: "shape1 bs = 34"
    using wf w by (simp add: bs_def shape1_cols wf_layout_def players_start_def min_def)
  have dcols: "shape1 ds = player_count L es"
    unfolding ds_def using pl sur by (rule demo_columns)
  have T: "0 < shape0 bs" "0 < shape0 ds"
    using ne by (simp_all add: bs_def ds_def shape0_def cols_def cols_step_def)
  have "fits (length (self_boost_timers self)) (shape1 bs)"
    "fits (length (self_demo_timers self)) (shape1 ds)"
    using bt dt by (simp_all add: fits_def b34 dcols)
  from update_timers_unchecked [OF this]
  obtain B D where
    ut: "update_timers (Unchecked g) (self_boost_timers self) (self_boost_locations self)
           (self_demo_timers self) (self_tick_skip self) bs ds = Inr (B, D)"
    and B: "shaped (shape0 bs) (shape1 bs) B"
    and D: "shaped (shape0 ds) (shape1 ds) D"
    by blast
  have Bne: "rows B \<noteq> []" and Dne: "rows D \<noteq> []"
    using shaped_rows_nonempty [OF B T(1)] shaped_rows_nonempty [OF D T(2)] by simp_all
  have sB: "shape1 B = 34" and sD: "shape1 D = player_count L es"
    using B D b34 dcols by (simp_all add: shaped_def)
  from after_timers_total [OF wf ne rect w sur sB sD cap]
  obtain outs self' where "after_timers L self es B D = Inr (outs, self')"
    "length outs = player_count L es"
    by (auto simp: observations_def Let_def)
  then show ?thesis
    unfolding batched_build_obs_unfold bs_def [symmetric] ds_def [symmetric]
    using pl w Bne Dne
    by (simp add: ut)
qed


section \<open>Properties of the mask\<close>

lemma batched_build_obs_InrD:
  assumes "batched_build_obs L pol self es = Inr (outs, self')"
  shows "\<exists>bt dt kv. for_each [0..<player_count L es]
              (player_step L es dt (capacity self (player_count L es) + 35))
              (base_rows (self_boost_locations self)
                 (cols es (3 + BOOST_PADS_LENGTH L) (3 + BOOST_PADS_LENGTH L + 9)) bt
                 (strided (rows es ! 0) (players_start L + 1) (PLAYER_INFO_LENGTH L))
                 (player_count L es) (capacity self (player_count L es))
                 (capacity self (player_count L es) + 35)) = Inr kv
         \<and> length (strided (rows es ! 0) (players_start L + 1) (PLAYER_INFO_LENGTH L))
             = player_count L es
         \<and> outs = observations
                (strided (rows es ! 0) (players_start L + 1) (PLAYER_INFO_LENGTH L))
                (player_count L es) (capacity self (player_count L es))
                (capacity self (player_count L es) + 35) kv"
  using assms
  unfolding batched_build_obs_unfold after_timers_def Let_def
  by (auto simp: bind_r_eq_Inr split: if_splits)

lemma length_observations: "length (observations teams P lm E kv) = P"
  by (simp add: observations_def Let_def)

lemma mask_of_observations:
  "ob \<in> set (observations teams P lm E kv) \<Longrightarrow>
   mask_of ob t e = (if P \<le> e \<and> e < lm \<and> e < E then 1 else 0)"
  by (auto simp: observations_def Let_def mask_of_def mask_rows_def)


lemma example_rect: "rect example_states"
  by (simp add: rect_def example_states_def example_player_def)

lemma rlgym_wf: "wf_layout rlgym_layout"
  by (simp add: wf_layout_def rlgym_layout_def)

lemma example_count: "player_count rlgym_layout example_states = 2"
  by (simp add: player_count_def players_start_def rlgym_layout_def example_states_def)

lemma example_total:
  "\<exists>outs self'. batched_build_obs rlgym_layout (Unchecked example_memory) example_builder
       example_states = Inr (outs, self') \<and> length outs = 2"
  using batched_build_obs_unchecked_total [OF rlgym_wf _ example_rect, of example_builder example_memory]
  by (simp add: example_count capacity_def example_builder_def)
    (simp add: players_start_def rlgym_layout_def example_states_def)

text \<open>
  C9 (the mask marks the unused player capacity).  Whenever the call returns and the
  capacity is at least the number of players of the batch, there is one observation per
  player, and for every observing player and every tick the mask is 1 on the player rows
  from the player count up to the capacity and 0 on every other row: the same rows for
  every tick and every observer, capacity minus player count of them.
\<close>


theorem mask_marks_unused_capacity:
  assumes "batched_build_obs L pol self es = Inr (outs, self')"
    and "player_count L es \<le> capacity self (player_count L es)"
  shows "length outs = player_count L es
     \<and> (\<forall>ob \<in> set outs. \<forall>t e.
           mask_of ob t e =
             (if player_count L es \<le> e \<and> e < capacity self (player_count L es) then 1 else 0))
     \<and> (\<forall>ob \<in> set outs. \<forall>t.
           card {e. e < capacity self (player_count L es) + 35 \<and> mask_of ob t e = 1}
             = capacity self (player_count L es) - player_count L es)"
proof -
  let ?P = "player_count L es" and ?lim = "capacity self (player_count L es)"
  from batched_build_obs_InrD [OF assms(1)] obtain teams kv where
    outs: "outs = observations teams ?P ?lim (?lim + 35) kv"
    by blast
  have m: "mask_of ob t e = (if ?P \<le> e \<and> e < ?lim then 1 else 0)"
    if "ob \<in> set outs" for ob t e
    using mask_of_observations [OF that [unfolded outs]] by simp
  have "{e. e < ?lim + 35 \<and> mask_of ob t e = 1} = {?P..<?lim}" if "ob \<in> set outs" for ob t
    using m [OF that] by auto
  then have "card {e. e < ?lim + 35 \<and> mask_of ob t e = 1} = ?lim - ?P"
    if "ob \<in> set outs" for ob t
    using that by simp
  with m outs show ?thesis
    by (simp add: length_observations)
qed


theorem mask_marks_unused_capacity_witness:
  "\<exists>outs self'.
     batched_build_obs rlgym_layout (Unchecked example_memory) example_builder example_states
       = Inr (outs, self')
     \<and> player_count rlgym_layout example_states
         \<le> capacity example_builder (player_count rlgym_layout example_states)
     \<and> length outs = 2
     \<and> mask_of (outs ! 0) 0 1 = 0 \<and> mask_of (outs ! 0) 0 2 = 1 \<and> mask_of (outs ! 1) 0 5 = 1
     \<and> mask_of (outs ! 1) 0 6 = 0
     \<and> card {e. e < 41 \<and> mask_of (outs ! 1) 0 e = 1} = 4"
proof -
  from example_total obtain outs self' where
    r: "batched_build_obs rlgym_layout (Unchecked example_memory) example_builder example_states
          = Inr (outs, self')" and len: "length outs = 2"
    by blast
  have cap: "player_count rlgym_layout example_states
      \<le> capacity example_builder (player_count rlgym_layout example_states)"
    by (simp add: example_count capacity_def example_builder_def)
  have mem: "outs ! 0 \<in> set outs" "outs ! 1 \<in> set outs"
    using len by simp_all
  have k: "capacity example_builder 2 = 6"
    by (simp add: capacity_def example_builder_def)
  from mask_marks_unused_capacity [OF r cap] have
    A: "\<forall>ob \<in> set outs. \<forall>t e. mask_of ob t e = (if 2 \<le> e \<and> e < 6 then 1 else 0)"
    and C: "\<forall>ob \<in> set outs. \<forall>t. card {e. e < 6 + 35 \<and> mask_of ob t e = 1} = 6 - 2"
    unfolding example_count k by blast+
  from A mem have "mask_of (outs ! 0) 0 1 = 0" "mask_of (outs ! 0) 0 2 = 1"
    "mask_of (outs ! 1) 0 5 = 1" "mask_of (outs ! 1) 0 6 = 0"
    by simp_all
  moreover from C mem have "card {e. e < 6 + 35 \<and> mask_of (outs ! 1) 0 e = 1} = 6 - 2"
    by blast
  then have "card {e. e < 41 \<and> mask_of (outs ! 1) 0 e = 1} = 4"
    by simp
  ultimately show ?thesis
    using r cap len by blast
qed

section \<open>The loop over the players: what it stores\<close>

lemma for_each_preserve:
  assumes "for_each xs body s0 = Inr s" and "Q s0"
    and "\<And>x k k'. x \<in> set xs \<Longrightarrow> body x k = Inr k' \<Longrightarrow> Q k \<Longrightarrow> Q k'"
  shows "Q s"
  using assms
proof (induction xs arbitrary: s0)
  case Nil
  then show ?case by simp
next
  case (Cons x xs)
  from Cons.prems(1) obtain k1 where k1: "body x s0 = Inr k1" "for_each xs body k1 = Inr s"
    by (auto simp: bind_r_eq_Inr)
  have step: "Q k'" if "y \<in> set xs" "body y k = Inr k'" "Q k" for y k k'
    using Cons.prems(3) [of y k k'] that by simp
  have "Q k1"
    using Cons.prems(3) [of x s0 k1] k1(1) Cons.prems(2) by simp
  then show ?case
    using step by (rule Cons.IH [OF k1(2)])
qed

lemma for_each_establish:
  assumes "for_each xs body s0 = Inr s" and "i \<in> set xs"
    and "\<And>k k'. body i k = Inr k' \<Longrightarrow> Q k'"
    and "\<And>x k k'. x \<in> set xs \<Longrightarrow> body x k = Inr k' \<Longrightarrow> Q k \<Longrightarrow> Q k'"
  shows "Q s"
  using assms
proof (induction xs arbitrary: s0)
  case Nil
  then show ?case by simp
next
  case (Cons x xs)
  from Cons.prems(1) obtain k1 where k1: "body x s0 = Inr k1" "for_each xs body k1 = Inr s"
    by (auto simp: bind_r_eq_Inr)
  have step: "Q k'" if "y \<in> set xs" "body y k = Inr k'" "Q k" for y k k'
    using Cons.prems(4) [of y k k'] that by simp
  show ?case
  proof (cases "i \<in> set xs")
    case True
    show ?thesis
    proof (rule Cons.IH [OF k1(2) True])
      show "Q k'" if "body i k = Inr k'" for k k'
        using that by (rule Cons.prems(3))
      show "Q k'" if "y \<in> set xs" "body y k = Inr k'" "Q k" for y k k'
        using that by (rule step)
    qed
  next
    case False
    with Cons.prems(2) have "x = i" by simp
    with k1(1) Cons.prems(3) have "Q k1" by simp
    then show ?thesis
      using step by (rule for_each_preserve [OF k1(2)])
  qed
qed

text \<open>What one round of the loop stores.\<close>

lemma player_step_Inr:
  assumes "player_step L es dt E i kv = Inr kv'"
  defines "ep \<equiv> cols es (players_start L + i * PLAYER_INFO_LENGTH L)
                   (players_start L + (i + 1) * PLAYER_INFO_LENGTH L)"
  shows "\<exists>rot boost demo ground flip jump.
     fits (shape1 (cols ep (CAR_POS_X L) (CAR_POS_Z L + 1))) 3
     \<and> fits (shape1 (cols ep (CAR_LINEAR_VEL_X L) (CAR_LINEAR_VEL_Z L + 1))) 3
     \<and> fits (shape1 (cols ep (CAR_ANGULAR_VEL_X L) (CAR_ANGULAR_VEL_Z L + 1))) 3
     \<and> quats_to_rot_mtx (cols ep (CAR_QUAT_W L) (CAR_QUAT_Z L + 1)) = Inr rot
     \<and> column ep (BOOST_AMOUNT L) = Inr boost
     \<and> column dt i = Inr demo
     \<and> column ep (ON_GROUND L) = Inr ground
     \<and> column ep (HAS_FLIP L) = Inr flip
     \<and> column ep (HAS_JUMP L) = Inr jump
     \<and> kv' = (\<lambda>p t e c.
          if e = i \<and> c = 24 then jump ! t
          else if e = i \<and> c = 23 then flip ! t
          else if e = i \<and> c = 22 then ground ! t
          else if e = i \<and> c = 21 then demo ! t
          else if e = i \<and> c = 20 then boost ! t
          else if e = i \<and> 17 \<le> c \<and> c < 20
            then bcast (rows (cols ep (CAR_ANGULAR_VEL_X L) (CAR_ANGULAR_VEL_Z L + 1)) ! t) (c - 17)
          else if e = i \<and> 14 \<le> c \<and> c < 17 then up_of (rot ! t) ! (c - 14)
          else if e = i \<and> 11 \<le> c \<and> c < 14 then forward_of (rot ! t) ! (c - 11)
          else if e = i \<and> 8 \<le> c \<and> c < 11
            then bcast (rows (cols ep (CAR_LINEAR_VEL_X L) (CAR_LINEAR_VEL_Z L + 1)) ! t) (c - 8)
          else if e = i \<and> 5 \<le> c \<and> c < 8
            then bcast (rows (cols ep (CAR_POS_X L) (CAR_POS_Z L + 1)) ! t) (c - 5)
          else if p = i \<and> e = i \<and> c = 0 then 1
          else kv p t e c)"
  using assms(1)
  unfolding player_step_def Let_def players_start_def [symmetric] ep_def [symmetric]
  by (auto simp: bind_r_eq_Inr put_block_def put_col_def split: if_splits intro!: ext)

lemma player_step_flags:
  assumes "player_step L es dt E i kv = Inr kv'" and "1 \<le> c" "c < 5"
  shows "kv' p t e c = kv p t e c"
  using player_step_Inr [OF assms(1)] assms(2,3) by auto

lemma player_step_self:
  assumes "player_step L es dt E i kv = Inr kv'"
  shows "kv' p t e 0 = (if p = i \<and> e = i then 1 else kv p t e 0)"
  using player_step_Inr [OF assms(1)] by auto

lemma player_step_other:
  assumes "player_step L es dt E i kv = Inr kv'" and "e \<noteq> i"
  shows "kv' p t e c = kv p t e c"
  using player_step_Inr [OF assms(1)] assms(2) by auto

lemma loop_flags:
  assumes "for_each xs (player_step L es dt E) kv0 = Inr kv" and "1 \<le> c" "c < 5"
  shows "kv p t e c = kv0 p t e c"
proof (rule for_each_preserve [OF assms(1), where Q = "\<lambda>k. k p t e c = kv0 p t e c"])
  show "kv0 p t e c = kv0 p t e c" by simp
  show "k' p t e c = kv0 p t e c"
    if "player_step L es dt E x k = Inr k'" "k p t e c = kv0 p t e c" for x k k'
    using player_step_flags [OF that(1) assms(2,3)] that(2) by simp
qed

lemma loop_self:
  "for_each xs (player_step L es dt E) kv0 = Inr kv \<Longrightarrow>
   kv p t e 0 = (if e \<in> set xs \<and> p = e then 1 else kv0 p t e 0)"
proof (induction xs arbitrary: kv0)
  case Nil
  then show ?case by simp
next
  case (Cons x xs)
  from Cons.prems obtain k1 where
    k1: "player_step L es dt E x kv0 = Inr k1" "for_each xs (player_step L es dt E) k1 = Inr kv"
    by (auto simp: bind_r_eq_Inr)
  from Cons.IH [OF k1(2)] player_step_self [OF k1(1), of p t e] show ?case
    by auto
qed

lemma base_rows_flags:
  "base_rows locs ball bt teams P lm E p t e 0 = 0"
  "base_rows locs ball bt teams P lm E p t e (Suc 0) = (if e < P \<and> e < E then 1 - bcast teams e else 0)"
  "base_rows locs ball bt teams P lm E p t e 2 = (if e < P \<and> e < E then bcast teams e else 0)"
  "base_rows locs ball bt teams P lm E p t e 3 = (if e = lm then 1 else 0)"
  "base_rows locs ball bt teams P lm E p t e 4 = (if lm + 1 \<le> e \<and> e < E then 1 else 0)"
  by (simp_all add: base_rows_def Let_def ball_index_def)

lemma builder_norm_low: "c < 5 \<Longrightarrow> builder_norm ! c = 1"
  by (simp add: builder_norm_def nth_append)

lemma kv_of_observations:
  "p < P \<Longrightarrow> kv_of (observations teams P lm E kv ! p) =
     add_relative_components (query_rows P (divide_norm (normalize_teams teams P kv)))
       (divide_norm (normalize_teams teams P kv)) p"
  by (simp add: observations_def Let_def kv_of_def)

lemma observation_flags:
  assumes "p < P" "c < 5"
  shows "kv_of (observations teams P lm E kv ! p) t e c =
     (if teams ! p = 1 \<and> c = 1 then kv p t e 2
      else if teams ! p = 1 \<and> c = 2 then kv p t e 1
      else kv p t e c)"
  using assms
  by (simp add: kv_of_observations add_relative_components_low divide_norm_def builder_norm_low
      normalize_teams_def team_invert_def swap_teams_def mul_invert_def builder_invert_low)

lemma nth_strided:
  "k < length (strided r start step) \<Longrightarrow> strided r start step ! k = r ! (start + k * step)"
  by (simp add: strided_def)

lemma team_nth:
  assumes "length (strided (rows es ! 0) (players_start L + 1) (PLAYER_INFO_LENGTH L)) = P"
    and "e < P"
  shows "strided (rows es ! 0) (players_start L + 1) (PLAYER_INFO_LENGTH L) ! e = team_of L es e"
    and "bcast (strided (rows es ! 0) (players_start L + 1) (PLAYER_INFO_LENGTH L)) e
           = team_of L es e"
proof -
  show a: "strided (rows es ! 0) (players_start L + 1) (PLAYER_INFO_LENGTH L) ! e = team_of L es e"
    using assms by (simp add: nth_strided team_of_def player_field_def add.commute add.left_commute)
  show "bcast (strided (rows es ! 0) (players_start L + 1) (PLAYER_INFO_LENGTH L)) e
           = team_of L es e"
    using a assms by (auto simp: bcast_def)
qed

lemma flags_of_observation:
  assumes r: "batched_build_obs L pol self es = Inr (outs, self')"
    and p: "p < player_count L es"
  shows "kv_of (outs ! p) t e 0 = (if e = p then 1 else 0)"
    and "kv_of (outs ! p) t e 1 =
      (if e < player_count L es \<and> e < capacity self (player_count L es) + 35
       then (if team_of L es p = 1 then team_of L es e else 1 - team_of L es e) else 0)"
    and "kv_of (outs ! p) t e 2 =
      (if e < player_count L es \<and> e < capacity self (player_count L es) + 35
       then (if team_of L es p = 1 then 1 - team_of L es e else team_of L es e) else 0)"
    and "kv_of (outs ! p) t e 3 = (if e = capacity self (player_count L es) then 1 else 0)"
    and "kv_of (outs ! p) t e 4 =
      (if capacity self (player_count L es) + 1 \<le> e
          \<and> e < capacity self (player_count L es) + 35 then 1 else 0)"
proof -
  define P where "P = player_count L es"
  define lm where "lm = capacity self (player_count L es)"
  define teams where "teams = strided (rows es ! 0) (players_start L + 1) (PLAYER_INFO_LENGTH L)"
  define ball where "ball = cols es (3 + BOOST_PADS_LENGTH L) (3 + BOOST_PADS_LENGTH L + 9)"
  from batched_build_obs_InrD [OF r] obtain bt dt kv where
    loop: "for_each [0..<P] (player_step L es dt (lm + 35))
              (base_rows (self_boost_locations self) ball bt teams P lm (lm + 35)) = Inr kv"
    and len: "length teams = P"
    and outs: "outs = observations teams P lm (lm + 35) kv"
    unfolding P_def lm_def teams_def ball_def by blast
  have pP: "p < P" using p by (simp add: P_def)
  have tp: "teams ! e = team_of L es e" "bcast teams e = team_of L es e" if "e < P" for e
    using team_nth [OF len [unfolded teams_def] that] by (simp_all add: teams_def)
  have f: "kv_of (outs ! p) t e c =
     (if teams ! p = 1 \<and> c = 1 then kv p t e 2
      else if teams ! p = 1 \<and> c = 2 then kv p t e 1
      else kv p t e c)" if "c < 5" for c
    unfolding outs using pP that by (rule observation_flags)
  have lf: "kv p t e c = base_rows (self_boost_locations self) ball bt teams P lm (lm + 35) p t e c"
    if "1 \<le> c" "c < 5" for c
    using loop that by (rule loop_flags)
  have f0: "kv_of (outs ! p) t e 0 = kv p t e 0"
    using f [of 0] by simp
  have f1: "kv_of (outs ! p) t e 1 = (if team_of L es p = 1 then kv p t e 2 else kv p t e 1)"
    using f [of 1] tp(1) [OF pP] by simp
  have f2: "kv_of (outs ! p) t e 2 = (if team_of L es p = 1 then kv p t e 1 else kv p t e 2)"
    using f [of 2] tp(1) [OF pP] by simp
  have f3: "kv_of (outs ! p) t e 3 = kv p t e 3"
    using f [of 3] by simp
  have f4: "kv_of (outs ! p) t e 4 = kv p t e 4"
    using f [of 4] by simp
  have k1: "kv p t e 1 = (if e < P \<and> e < lm + 35 then 1 - team_of L es e else 0)"
    using lf [of 1] tp(2) [of e] by (simp add: base_rows_flags)
  have k2: "kv p t e 2 = (if e < P \<and> e < lm + 35 then team_of L es e else 0)"
    using lf [of 2] tp(2) [of e] by (simp add: base_rows_flags)
  have k3: "kv p t e 3 = (if e = lm then 1 else 0)"
    using lf [of 3] by (simp add: base_rows_flags)
  have k4: "kv p t e 4 = (if lm + 1 \<le> e \<and> e < lm + 35 then 1 else 0)"
    using lf [of 4] by (simp add: base_rows_flags)
  have k0: "kv p t e 0 = (if e = p then 1 else 0)"
    using loop_self [OF loop, of p t e] pP by (auto simp: base_rows_flags)
  show "kv_of (outs ! p) t e 0 = (if e = p then 1 else 0)"
    using f0 k0 by simp
  show "kv_of (outs ! p) t e 1 =
      (if e < player_count L es \<and> e < capacity self (player_count L es) + 35
       then (if team_of L es p = 1 then team_of L es e else 1 - team_of L es e) else 0)"
    using f1 k1 k2 unfolding P_def lm_def by simp
  show "kv_of (outs ! p) t e 2 =
      (if e < player_count L es \<and> e < capacity self (player_count L es) + 35
       then (if team_of L es p = 1 then 1 - team_of L es e else team_of L es e) else 0)"
    using f2 k1 k2 unfolding P_def lm_def by simp
  show "kv_of (outs ! p) t e 3 = (if e = capacity self (player_count L es) then 1 else 0)"
    using f3 k3 unfolding lm_def by simp
  show "kv_of (outs ! p) t e 4 =
      (if capacity self (player_count L es) + 1 \<le> e
          \<and> e < capacity self (player_count L es) + 35 then 1 else 0)"
    using f4 k4 unfolding lm_def by simp
qed

section \<open>Properties of the kind indicators\<close>

lemma example_team0: "team_of rlgym_layout example_states 0 = 0"
  by (simp add: team_of_def player_field_def players_start_def rlgym_layout_def
      example_states_def example_player_def nth_append)

lemma example_team1: "team_of rlgym_layout example_states 1 = 1"
  by (simp add: team_of_def player_field_def players_start_def rlgym_layout_def
      example_states_def example_player_def nth_append)

lemma example_teams:
  "\<forall>i < player_count rlgym_layout example_states.
     team_of rlgym_layout example_states i = 0 \<or> team_of rlgym_layout example_states i = 1"
proof (intro allI impI)
  fix i assume "i < player_count rlgym_layout example_states"
  then have "i = 0 \<or> i = 1" by (auto simp: example_count)
  then show "team_of rlgym_layout example_states i = 0 \<or> team_of rlgym_layout example_states i = 1"
    using example_team0 example_team1 by auto
qed

text \<open>
  C6 (the five kind indicators are mutually exclusive).  The claim fails on the observer's
  own row.  The loop sets the self indicator on the row that already carries the player's
  team indicator, and after the swap for the observers of team 1 the own row carries the
  self and the teammate indicator for every observer; the legacy encoder sets
  \<^verbatim>\<open>is_main\<close> on top of \<^verbatim>\<open>is_teammate\<close> in the same way.  On the two-player
  example, row 0 of observer 0 has two nonzero indicators.
\<close>

theorem self_row_has_two_indicators:
  "length (obs_of (batched_build_obs rlgym_layout (Unchecked example_memory)
             example_builder example_states)) = 2
   \<and> count_nonzero
        [kv_of (obs_of (batched_build_obs rlgym_layout (Unchecked example_memory)
                  example_builder example_states) ! 0) 0 0 0,
         kv_of (obs_of (batched_build_obs rlgym_layout (Unchecked example_memory)
                  example_builder example_states) ! 0) 0 0 1,
         kv_of (obs_of (batched_build_obs rlgym_layout (Unchecked example_memory)
                  example_builder example_states) ! 0) 0 0 2,
         kv_of (obs_of (batched_build_obs rlgym_layout (Unchecked example_memory)
                  example_builder example_states) ! 0) 0 0 3,
         kv_of (obs_of (batched_build_obs rlgym_layout (Unchecked example_memory)
                  example_builder example_states) ! 0) 0 0 4] = 2"
proof -
  from example_total obtain outs self' where
    r: "batched_build_obs rlgym_layout (Unchecked example_memory) example_builder example_states
          = Inr (outs, self')" and len: "length outs = 2"
    by blast
  have p: "0 < player_count rlgym_layout example_states"
    by (simp add: example_count)
  note f = flags_of_observation [OF r p, of 0 0, unfolded One_nat_def]
  have k: "capacity example_builder 2 = 6"
    by (simp add: capacity_def example_builder_def)
  show ?thesis
    unfolding r obs_of_def
    using len by (simp add: f example_count k example_team0 count_nonzero_def)
qed

text \<open>
  C6, amended.  Whenever the call returns, the capacity is at least the number of players
  and every team number is 0 or 1, then in every row of every observing player's tensor, at
  every tick, at most one of the teammate, opponent, ball and pad indicators is nonzero;
  the self indicator is 1 on the observer's own row and 0 on every other row; and the own
  row carries the teammate indicator as well.
\<close>

theorem kind_indicators_exclusive_apart_from_self:
  assumes r: "batched_build_obs L pol self es = Inr (outs, self')"
    and cap: "player_count L es \<le> capacity self (player_count L es)"
    and teams: "\<forall>i < player_count L es. team_of L es i = 0 \<or> team_of L es i = 1"
    and p: "p < player_count L es"
  shows "count_nonzero [kv_of (outs ! p) t e 1, kv_of (outs ! p) t e 2,
                        kv_of (outs ! p) t e 3, kv_of (outs ! p) t e 4] \<le> 1
     \<and> kv_of (outs ! p) t e 0 = (if e = p then 1 else 0)
     \<and> kv_of (outs ! p) t p 1 = 1"
proof -
  note f = flags_of_observation [OF r p, unfolded One_nat_def]
  from teams p have tp: "team_of L es p = 0 \<or> team_of L es p = 1" by blast
  have te: "team_of L es e = 0 \<or> team_of L es e = 1" if "e < player_count L es"
    using teams that by blast
  have "count_nonzero [kv_of (outs ! p) t e 1, kv_of (outs ! p) t e 2,
                        kv_of (outs ! p) t e 3, kv_of (outs ! p) t e 4] \<le> 1"
  proof (cases "e < player_count L es")
    case True
    with cap te [OF True] show ?thesis
      by (auto simp: f count_nonzero_def)
  next
    case False
    then show ?thesis
      by (auto simp: f count_nonzero_def)
  qed
  moreover have "kv_of (outs ! p) t p 1 = 1"
    using tp p cap by (auto simp: f)
  ultimately show ?thesis
    by (simp add: f)
qed

theorem kind_indicators_exclusive_apart_from_self_witness:
  "\<exists>outs self'.
     batched_build_obs rlgym_layout (Unchecked example_memory) example_builder example_states
       = Inr (outs, self')
     \<and> count_nonzero [kv_of (outs ! 1) 0 0 1, kv_of (outs ! 1) 0 0 2,
                       kv_of (outs ! 1) 0 0 3, kv_of (outs ! 1) 0 0 4] \<le> 1
     \<and> kv_of (outs ! 1) 0 0 0 = 0 \<and> kv_of (outs ! 1) 0 1 0 = 1
     \<and> kv_of (outs ! 1) 0 1 1 = 1"
proof -
  from example_total obtain outs self' where
    r: "batched_build_obs rlgym_layout (Unchecked example_memory) example_builder example_states
          = Inr (outs, self')"
    by blast
  have cap: "player_count rlgym_layout example_states
      \<le> capacity example_builder (player_count rlgym_layout example_states)"
    by (simp add: example_count capacity_def example_builder_def)
  have p: "1 < player_count rlgym_layout example_states"
    by (simp add: example_count)
  from kind_indicators_exclusive_apart_from_self [OF r cap example_teams p, of 0 0]
    kind_indicators_exclusive_apart_from_self [OF r cap example_teams p, of 0 1]
  show ?thesis
    using r by auto
qed

section \<open>Properties of the observer's own row\<close>

lemma builder_invert_list:
  "builder_invert = [1, 1, 1, 1, 1, - 1, - 1, 1, - 1, - 1, 1, - 1, - 1, 1, - 1, - 1, 1,
     - 1, - 1, 1, 1, 1, 1, 1, 1] @ replicate 30 1"
  by (simp add: builder_invert_def eval_nat_numeral)

lemma builder_norm_list:
  "builder_norm = [1, 1, 1, 1, 1, 2300, 2300, 2300, 2300, 2300, 2300, 1, 1, 1, 1, 1, 1,
     11 / 2, 11 / 2, 11 / 2, 1, 10, 1, 1, 1] @ replicate 30 1"
  by (simp add: builder_norm_def eval_nat_numeral)

lemma builder_invert_triple:
  "k < 3 \<Longrightarrow> builder_invert ! (5 + k) = (if k < 2 then - 1 else 1)"
  "k < 3 \<Longrightarrow> builder_invert ! (8 + k) = (if k < 2 then - 1 else 1)"
  "k < 3 \<Longrightarrow> builder_invert ! (17 + k) = (if k < 2 then - 1 else 1)"
  "20 \<le> c \<Longrightarrow> c < 25 \<Longrightarrow> builder_invert ! c = 1"
proof -
  have k: "k = 0 \<or> k = 1 \<or> k = 2" if "k < 3" using that by arith
  show "k < 3 \<Longrightarrow> builder_invert ! (5 + k) = (if k < 2 then - 1 else 1)"
    using k by (auto simp: builder_invert_list)
  show "k < 3 \<Longrightarrow> builder_invert ! (8 + k) = (if k < 2 then - 1 else 1)"
    using k by (auto simp: builder_invert_list)
  show "k < 3 \<Longrightarrow> builder_invert ! (17 + k) = (if k < 2 then - 1 else 1)"
    using k by (auto simp: builder_invert_list)
  have c: "c = 20 \<or> c = 21 \<or> c = 22 \<or> c = 23 \<or> c = 24" if "20 \<le> c" "c < 25"
    using that by arith
  show "20 \<le> c \<Longrightarrow> c < 25 \<Longrightarrow> builder_invert ! c = 1"
    using c by (auto simp: builder_invert_list)
qed

lemma builder_norm_triple:
  "k < 3 \<Longrightarrow> builder_norm ! (5 + k) = 2300"
  "k < 3 \<Longrightarrow> builder_norm ! (8 + k) = 2300"
  "k < 3 \<Longrightarrow> builder_norm ! (17 + k) = 11 / 2"
  "builder_norm ! 20 = 1" "builder_norm ! 22 = 1" "builder_norm ! 23 = 1" "builder_norm ! 24 = 1"
proof -
  have k: "k = 0 \<or> k = 1 \<or> k = 2" if "k < 3" using that by arith
  show "k < 3 \<Longrightarrow> builder_norm ! (5 + k) = 2300"
    using k by (auto simp: builder_norm_list)
  show "k < 3 \<Longrightarrow> builder_norm ! (8 + k) = 2300"
    using k by (auto simp: builder_norm_list)
  show "k < 3 \<Longrightarrow> builder_norm ! (17 + k) = 11 / 2"
    using k by (auto simp: builder_norm_list)
  show "builder_norm ! 20 = 1" "builder_norm ! 22 = 1" "builder_norm ! 23 = 1"
    "builder_norm ! 24 = 1"
    by (simp_all add: builder_norm_list)
qed

lemma observation_value:
  assumes "p < P" and "3 \<le> c" and "c < 10 \<or> 16 \<le> c \<and> c < 25"
  shows "kv_of (observations teams P lm E kv ! p) t e c =
     kv p t e c * (if teams ! p = 1 then builder_invert ! c else 1) / builder_norm ! c"
proof -
  have a: "add_relative_components q K p t e c = K p t e c" for q K
    using assms(3) add_relative_components_low [of c] add_relative_components_mid [of c]
    by blast
  have c55: "c < 55" using assms(3) by auto
  have c12: "c \<noteq> 1" "c \<noteq> 2" using assms(2) by auto
  show ?thesis
    using assms(1) c55 c12
    by (simp add: kv_of_observations a divide_norm_def normalize_teams_def team_invert_def
        swap_teams_def mul_invert_def)
qed

text \<open>Reading the batch through the slices of a player block.\<close>

lemma rect_row: "rect es \<Longrightarrow> t < shape0 es \<Longrightarrow> length (rows es ! t) = shape1 es"
  by (simp add: rect_def shape0_def list_all_length)

lemma block_value:
  assumes "rect es" "t < shape0 es" "a + pl \<le> shape1 es" "x + n \<le> pl" "k < n" "1 < n"
  shows "bcast (rows (cols (cols es a (a + pl)) x (x + n)) ! t) k = rows es ! t ! (a + x + k)"
proof -
  have len: "length (rows es ! t) = shape1 es" using assms(1,2) by (rule rect_row)
  have t: "t < length (rows es)" using assms(2) by (simp add: shape0_def)
  have "length (rows (cols (cols es a (a + pl)) x (x + n)) ! t) = n"
    using assms t len by (simp add: rows_cols min_def; arith)
  moreover have "rows (cols (cols es a (a + pl)) x (x + n)) ! t ! k = rows es ! t ! (a + x + k)"
    using assms t len by (simp add: rows_cols add.assoc)
  ultimately show ?thesis
    using assms(6) by (simp add: bcast_def)
qed

lemma column_value:
  assumes "column (cols es a (a + pl)) off = Inr col" "rect es" "t < shape0 es"
    "a + pl \<le> shape1 es" "off < pl"
  shows "col ! t = rows es ! t ! (a + off)"
proof -
  have len: "length (rows es ! t) = shape1 es" using assms(2,3) by (rule rect_row)
  have t: "t < length (rows es)" using assms(3) by (simp add: shape0_def)
  from assms(1) have "col = map (\<lambda>r. r ! off) (rows (cols es a (a + pl)))"
    by (simp add: column_def split: if_splits)
  then show ?thesis
    using assms t len by (simp add: rows_cols)
qed

lemma loop_establish_row:
  assumes loop: "for_each xs (player_step L es dt E) kv0 = Inr kv" and i: "i \<in> set xs"
    and est: "\<And>k k'. player_step L es dt E i k = Inr k' \<Longrightarrow> k' p t i c = v"
  shows "kv p t i c = v"
proof (rule for_each_establish [OF loop i, where Q = "\<lambda>k. k p t i c = v"])
  show "k' p t i c = v" if "player_step L es dt E i k = Inr k'" for k k'
    using that by (rule est)
  show "k' p t i c = v"
    if "x \<in> set xs" "player_step L es dt E x k = Inr k'" "k p t i c = v" for x k k'
  proof (cases "x = i")
    case True
    with that(2) show ?thesis by (simp add: est)
  next
    case False
    then have "i \<noteq> x" by simp
    from player_step_other [OF that(2) this] that(3) show ?thesis by simp
  qed
qed

lemma player_step_row:
  assumes step: "player_step L es dt E i k = Inr k'"
    and wf: "wf_layout L" and rect: "rect es" and t: "t < shape0 es"
    and inside: "players_start L + (i + 1) * PLAYER_INFO_LENGTH L \<le> shape1 es"
  shows "j < 3 \<Longrightarrow> k' p t i (5 + j) = player_field L es t i (CAR_POS_X L + j)"
    and "j < 3 \<Longrightarrow> k' p t i (8 + j) = player_field L es t i (CAR_LINEAR_VEL_X L + j)"
    and "j < 3 \<Longrightarrow> k' p t i (17 + j) = player_field L es t i (CAR_ANGULAR_VEL_X L + j)"
    and "k' p t i 20 = player_field L es t i (BOOST_AMOUNT L)"
    and "k' p t i 22 = player_field L es t i (ON_GROUND L)"
    and "k' p t i 23 = player_field L es t i (HAS_FLIP L)"
    and "k' p t i 24 = player_field L es t i (HAS_JUMP L)"
proof -
  define a where "a = players_start L + i * PLAYER_INFO_LENGTH L"
  define pl where "pl = PLAYER_INFO_LENGTH L"
  have e1: "players_start L + (i + 1) * PLAYER_INFO_LENGTH L = a + pl"
    by (simp add: a_def pl_def)
  have in': "a + pl \<le> shape1 es" using inside e1 by simp
  have z: "CAR_POS_Z L + 1 = CAR_POS_X L + 3" "CAR_LINEAR_VEL_Z L + 1 = CAR_LINEAR_VEL_X L + 3"
    "CAR_ANGULAR_VEL_Z L + 1 = CAR_ANGULAR_VEL_X L + 3"
    using wf by (simp_all add: wf_layout_def)
  have w: "CAR_POS_X L + 3 \<le> pl" "CAR_LINEAR_VEL_X L + 3 \<le> pl" "CAR_ANGULAR_VEL_X L + 3 \<le> pl"
    "BOOST_AMOUNT L < pl" "ON_GROUND L < pl" "HAS_FLIP L < pl" "HAS_JUMP L < pl"
    using wf by (simp_all add: wf_layout_def pl_def)
  from player_step_Inr [OF step, unfolded e1 z a_def [symmetric]]
  obtain rot boost demo ground flip jump where
    boost: "column (cols es a (a + pl)) (BOOST_AMOUNT L) = Inr boost"
    and ground: "column (cols es a (a + pl)) (ON_GROUND L) = Inr ground"
    and flip: "column (cols es a (a + pl)) (HAS_FLIP L) = Inr flip"
    and jump: "column (cols es a (a + pl)) (HAS_JUMP L) = Inr jump"
    and k': "k' = (\<lambda>p t e c.
          if e = i \<and> c = 24 then jump ! t
          else if e = i \<and> c = 23 then flip ! t
          else if e = i \<and> c = 22 then ground ! t
          else if e = i \<and> c = 21 then demo ! t
          else if e = i \<and> c = 20 then boost ! t
          else if e = i \<and> 17 \<le> c \<and> c < 20
            then bcast (rows (cols (cols es a (a + pl)) (CAR_ANGULAR_VEL_X L)
                               (CAR_ANGULAR_VEL_X L + 3)) ! t) (c - 17)
          else if e = i \<and> 14 \<le> c \<and> c < 17 then up_of (rot ! t) ! (c - 14)
          else if e = i \<and> 11 \<le> c \<and> c < 14 then forward_of (rot ! t) ! (c - 11)
          else if e = i \<and> 8 \<le> c \<and> c < 11
            then bcast (rows (cols (cols es a (a + pl)) (CAR_LINEAR_VEL_X L)
                               (CAR_LINEAR_VEL_X L + 3)) ! t) (c - 8)
          else if e = i \<and> 5 \<le> c \<and> c < 8
            then bcast (rows (cols (cols es a (a + pl)) (CAR_POS_X L)
                               (CAR_POS_X L + 3)) ! t) (c - 5)
          else if p = i \<and> e = i \<and> c = 0 then 1
          else k p t e c)"
    by blast
  note bv = block_value [OF rect t in']
  note cv = column_value [OF _ rect t in']
  show "j < 3 \<Longrightarrow> k' p t i (5 + j) = player_field L es t i (CAR_POS_X L + j)"
    using bv [OF w(1), of j] by (simp add: k' player_field_def a_def add.assoc)
  show "j < 3 \<Longrightarrow> k' p t i (8 + j) = player_field L es t i (CAR_LINEAR_VEL_X L + j)"
    using bv [OF w(2), of j] by (simp add: k' player_field_def a_def add.assoc)
  show "j < 3 \<Longrightarrow> k' p t i (17 + j) = player_field L es t i (CAR_ANGULAR_VEL_X L + j)"
    using bv [OF w(3), of j] by (simp add: k' player_field_def a_def add.assoc)
  show "k' p t i 20 = player_field L es t i (BOOST_AMOUNT L)"
    using cv [OF boost w(4)] by (simp add: k' player_field_def a_def)
  show "k' p t i 22 = player_field L es t i (ON_GROUND L)"
    using cv [OF ground w(5)] by (simp add: k' player_field_def a_def)
  show "k' p t i 23 = player_field L es t i (HAS_FLIP L)"
    using cv [OF flip w(6)] by (simp add: k' player_field_def a_def)
  show "k' p t i 24 = player_field L es t i (HAS_JUMP L)"
    using cv [OF jump w(7)] by (simp add: k' player_field_def a_def)
qed

lemma count_pos_start: "p < player_count L es \<Longrightarrow> players_start L \<le> shape1 es"
  by (cases "players_start L \<le> shape1 es") (simp_all add: player_count_def)

lemma own_row_values:
  assumes r: "batched_build_obs L pol self es = Inr (outs, self')"
    and wf: "wf_layout L" and rect: "rect es"
    and p: "p < player_count L es" and t: "t < shape0 es"
  shows "k < 3 \<Longrightarrow> kv_of (outs ! p) t p (5 + k)
           = mirror (team_of L es p) k * player_field L es t p (CAR_POS_X L + k) / 2300"
    and "k < 2 \<Longrightarrow> kv_of (outs ! p) t p (8 + k)
           = mirror (team_of L es p) k * player_field L es t p (CAR_LINEAR_VEL_X L + k) / 2300"
    and "k < 3 \<Longrightarrow> kv_of (outs ! p) t p (17 + k)
           = mirror (team_of L es p) k * player_field L es t p (CAR_ANGULAR_VEL_X L + k)
               / (11 / 2)"
    and "kv_of (outs ! p) t p 20 = player_field L es t p (BOOST_AMOUNT L)"
    and "kv_of (outs ! p) t p 22 = player_field L es t p (ON_GROUND L)"
    and "kv_of (outs ! p) t p 23 = player_field L es t p (HAS_FLIP L)"
    and "kv_of (outs ! p) t p 24 = player_field L es t p (HAS_JUMP L)"
proof -
  define P where "P = player_count L es"
  define lm where "lm = capacity self (player_count L es)"
  define teams where "teams = strided (rows es ! 0) (players_start L + 1) (PLAYER_INFO_LENGTH L)"
  define ball where "ball = cols es (3 + BOOST_PADS_LENGTH L) (3 + BOOST_PADS_LENGTH L + 9)"
  from batched_build_obs_InrD [OF r] obtain bt dt kv where
    loop: "for_each [0..<P] (player_step L es dt (lm + 35))
              (base_rows (self_boost_locations self) ball bt teams P lm (lm + 35)) = Inr kv"
    and len: "length teams = P"
    and outs: "outs = observations teams P lm (lm + 35) kv"
    unfolding P_def lm_def teams_def ball_def by blast
  have pP: "p < P" using p by (simp add: P_def)
  have pin: "p \<in> set [0..<P]" using pP by simp
  have tp: "teams ! p = team_of L es p"
    using team_nth(1) [OF len [unfolded teams_def] pP] by (simp add: teams_def)
  have inside: "players_start L + (p + 1) * PLAYER_INFO_LENGTH L \<le> shape1 es"
    using count_pos_start [OF p] p by (rule player_block_inside)
  note row = player_step_row [OF _ wf rect t inside]
  note est = loop_establish_row [OF loop pin]
  have v: "kv_of (outs ! p) t p c =
     kv p t p c * (if team_of L es p = 1 then builder_invert ! c else 1) / builder_norm ! c"
    if "3 \<le> c" "c < 10 \<or> 16 \<le> c \<and> c < 25" for c
    unfolding outs using observation_value [OF pP that, of teams lm "lm + 35" kv t p]
    by (simp add: tp)
  show "kv_of (outs ! p) t p (5 + k)
           = mirror (team_of L es p) k * player_field L es t p (CAR_POS_X L + k) / 2300"
    if "k < 3"
  proof -
    have "kv p t p (5 + k) = player_field L es t p (CAR_POS_X L + k)"
      by (rule est) (rule row(1) [OF _ that])
    then show ?thesis
      using that by (simp add: v builder_invert_triple builder_norm_triple mirror_def)
  qed
  show "kv_of (outs ! p) t p (8 + k)
           = mirror (team_of L es p) k * player_field L es t p (CAR_LINEAR_VEL_X L + k) / 2300"
    if "k < 2"
  proof -
    from that have k3: "k < 3" by simp
    have "kv p t p (8 + k) = player_field L es t p (CAR_LINEAR_VEL_X L + k)"
      by (rule est) (rule row(2) [OF _ k3])
    then show ?thesis
      using that k3 by (simp add: v builder_invert_triple builder_norm_triple mirror_def)
  qed
  show "kv_of (outs ! p) t p (17 + k)
           = mirror (team_of L es p) k * player_field L es t p (CAR_ANGULAR_VEL_X L + k)
               / (11 / 2)"
    if "k < 3"
  proof -
    have "kv p t p (17 + k) = player_field L es t p (CAR_ANGULAR_VEL_X L + k)"
      by (rule est) (rule row(3) [OF _ that])
    then show ?thesis
      using that by (simp add: v builder_invert_triple builder_norm_triple mirror_def)
  qed
  show "kv_of (outs ! p) t p 20 = player_field L es t p (BOOST_AMOUNT L)"
  proof -
    have "kv p t p 20 = player_field L es t p (BOOST_AMOUNT L)"
      by (rule est) (rule row(4))
    then show ?thesis
      by (simp add: v builder_invert_triple builder_norm_triple)
  qed
  show "kv_of (outs ! p) t p 22 = player_field L es t p (ON_GROUND L)"
  proof -
    have "kv p t p 22 = player_field L es t p (ON_GROUND L)"
      by (rule est) (rule row(5))
    then show ?thesis
      by (simp add: v builder_invert_triple builder_norm_triple)
  qed
  show "kv_of (outs ! p) t p 23 = player_field L es t p (HAS_FLIP L)"
  proof -
    have "kv p t p 23 = player_field L es t p (HAS_FLIP L)"
      by (rule est) (rule row(6))
    then show ?thesis
      by (simp add: v builder_invert_triple builder_norm_triple)
  qed
  show "kv_of (outs ! p) t p 24 = player_field L es t p (HAS_JUMP L)"
  proof -
    have "kv p t p 24 = player_field L es t p (HAS_JUMP L)"
      by (rule est) (rule row(7))
    then show ?thesis
      by (simp add: v builder_invert_triple builder_norm_triple)
  qed
qed

lemma example_fields:
  "player_field rlgym_layout example_states 0 0 (CAR_POS_X rlgym_layout) = 2300"
  "player_field rlgym_layout example_states 0 (Suc 0) (CAR_POS_X rlgym_layout) = - 2300"
  "player_field rlgym_layout example_states 0 (Suc 0) (Suc (Suc (CAR_POS_X rlgym_layout))) = 17"
  "player_field rlgym_layout example_states 0 (Suc 0) (BOOST_AMOUNT rlgym_layout) = 1 / 2"
  "player_field rlgym_layout example_states 0 (Suc 0) (ON_GROUND rlgym_layout) = 1"
  by (simp_all add: player_field_def players_start_def rlgym_layout_def
      example_states_def example_player_def nth_append)

lemma example_team1_Suc: "team_of rlgym_layout example_states (Suc 0) = 1"
  using example_team1 by simp

lemma example_ticks: "shape0 example_states = 1"
  by (simp add: shape0_def example_states_def)

text \<open>
  C5 (one self row, holding the player's decoded state).  The first half holds.  The second
  fails as stated: the tensor is divided by \<^verbatim>\<open>_norm\<close> and, for the observers of team 1,
  multiplied by \<^verbatim>\<open>_invert\<close>, so the own row holds the scaled and mirrored state, not the
  decoded one.  In the example the player at x = 2300 has 1 in the x channel of the own row.
\<close>

theorem own_row_is_rescaled:
  "length (obs_of (batched_build_obs rlgym_layout (Unchecked example_memory)
             example_builder example_states)) = 2
   \<and> kv_of (obs_of (batched_build_obs rlgym_layout (Unchecked example_memory)
               example_builder example_states) ! 0) 0 0 5 = 1
   \<and> player_field rlgym_layout example_states 0 0 (CAR_POS_X rlgym_layout) = 2300"
proof -
  from example_total obtain outs self' where
    r: "batched_build_obs rlgym_layout (Unchecked example_memory) example_builder example_states
          = Inr (outs, self')" and len: "length outs = 2"
    by blast
  have p: "0 < player_count rlgym_layout example_states"
    by (simp add: example_count)
  have t: "0 < shape0 example_states"
    by (simp add: example_ticks)
  have k: "(0::nat) < 3" by simp
  from own_row_values(1) [OF r rlgym_wf example_rect p t k]
  have "kv_of (outs ! 0) 0 0 5 = 1"
    by (simp add: example_fields example_team0 mirror_def)
  then show ?thesis
    unfolding r obs_of_def using len by (simp add: example_fields)
qed

text \<open>
  C5, amended.  Whenever the call returns on a rectangular batch in a well-formed layout,
  then for every observing player and tick the self indicator is 1 on the player's own row
  and 0 on every other row, and the own row holds the player's decoded position,
  horizontal velocity and angular velocity, divided by 2300, 2300 and 5.5, with the x and
  y components negated for an observer of team 1, and the decoded boost amount and
  ground, flip and jump flags unchanged.  (The channels 10 to 15 are left out: they are
  the ones \<^verbatim>\<open>add_relative_components\<close> overwrites, see C3.)
\<close>

theorem own_row_holds_normalized_state:
  assumes r: "batched_build_obs L pol self es = Inr (outs, self')"
    and wf: "wf_layout L" and rect: "rect es"
    and p: "p < player_count L es" and t: "t < shape0 es"
  shows "(\<forall>e. kv_of (outs ! p) t e 0 = (if e = p then 1 else 0))
     \<and> (\<forall>k < 3. kv_of (outs ! p) t p (5 + k)
           = mirror (team_of L es p) k * player_field L es t p (CAR_POS_X L + k) / 2300)
     \<and> (\<forall>k < 2. kv_of (outs ! p) t p (8 + k)
           = mirror (team_of L es p) k * player_field L es t p (CAR_LINEAR_VEL_X L + k) / 2300)
     \<and> (\<forall>k < 3. kv_of (outs ! p) t p (17 + k)
           = mirror (team_of L es p) k * player_field L es t p (CAR_ANGULAR_VEL_X L + k)
               / (11 / 2))
     \<and> kv_of (outs ! p) t p 20 = player_field L es t p (BOOST_AMOUNT L)
     \<and> kv_of (outs ! p) t p 22 = player_field L es t p (ON_GROUND L)
     \<and> kv_of (outs ! p) t p 23 = player_field L es t p (HAS_FLIP L)
     \<and> kv_of (outs ! p) t p 24 = player_field L es t p (HAS_JUMP L)"
  using flags_of_observation(1) [OF r p] own_row_values [OF r wf rect p t]
  by blast

theorem own_row_holds_normalized_state_witness:
  "\<exists>outs self'.
     batched_build_obs rlgym_layout (Unchecked example_memory) example_builder example_states
       = Inr (outs, self')
     \<and> kv_of (outs ! 1) 0 1 0 = 1 \<and> kv_of (outs ! 1) 0 0 0 = 0
     \<and> kv_of (outs ! 1) 0 1 5 = 1 \<and> kv_of (outs ! 1) 0 1 7 = 17 / 2300
     \<and> kv_of (outs ! 1) 0 1 20 = 1 / 2 \<and> kv_of (outs ! 1) 0 1 22 = 1"
proof -
  from example_total obtain outs self' where
    r: "batched_build_obs rlgym_layout (Unchecked example_memory) example_builder example_states
          = Inr (outs, self')"
    by blast
  have p: "1 < player_count rlgym_layout example_states"
    by (simp add: example_count)
  have t: "0 < shape0 example_states"
    by (simp add: example_ticks)
  note T = own_row_holds_normalized_state [OF r rlgym_wf example_rect p t]
  from T have s: "\<forall>e. kv_of (outs ! 1) 0 e 0 = (if e = 1 then 1 else 0)"
    by (elim conjE)
  from T have pos: "\<forall>k < 3. kv_of (outs ! 1) 0 1 (5 + k)
        = mirror (team_of rlgym_layout example_states 1) k
          * player_field rlgym_layout example_states 0 1 (CAR_POS_X rlgym_layout + k) / 2300"
    by (elim conjE)
  from T have b: "kv_of (outs ! 1) 0 1 20
        = player_field rlgym_layout example_states 0 1 (BOOST_AMOUNT rlgym_layout)"
    by (elim conjE)
  from T have g: "kv_of (outs ! 1) 0 1 22
        = player_field rlgym_layout example_states 0 1 (ON_GROUND rlgym_layout)"
    by (elim conjE)
  from s have s1: "kv_of (outs ! 1) 0 1 0 = 1" and s0: "kv_of (outs ! 1) 0 0 0 = 0"
    by simp_all
  from pos have "kv_of (outs ! 1) 0 1 (5 + 0)
        = mirror (team_of rlgym_layout example_states 1) 0
          * player_field rlgym_layout example_states 0 1 (CAR_POS_X rlgym_layout + 0) / 2300"
    by (elim allE [where x = 0]) simp
  then have p5: "kv_of (outs ! 1) 0 1 5 = 1"
    by (simp add: example_team1_Suc mirror_def example_fields)
  from pos have "kv_of (outs ! 1) 0 1 (5 + 2)
        = mirror (team_of rlgym_layout example_states 1) 2
          * player_field rlgym_layout example_states 0 1 (CAR_POS_X rlgym_layout + 2) / 2300"
    by (elim allE [where x = 2]) simp
  then have p7: "kv_of (outs ! 1) 0 1 7 = 17 / 2300"
    by (simp add: example_team1_Suc mirror_def example_fields)
  from b have p20: "kv_of (outs ! 1) 0 1 20 = 1 / 2"
    by (simp add: example_fields)
  from g have p22: "kv_of (outs ! 1) 0 1 22 = 1"
    by (simp add: example_fields)
  from r s1 s0 p5 p7 p20 p22 show ?thesis
    by blast
qed

section \<open>The width of the records\<close>

lemma setitem2_rows: "setitem2 a i j v = Inr a' \<Longrightarrow> length (rows a') = length (rows a)"
  by (auto simp: setitem2_def split: if_splits)

lemma setrow0_rows: "setrow0 a src = Inr a' \<Longrightarrow> length (rows a') = length (rows a)"
  by (auto simp: setrow0_def split: if_splits)

lemma boost_cell_rows:
  "boost_cell pol locs ts states i b tm = Inr tm' \<Longrightarrow> length (rows tm') = length (rows tm)"
  by (auto simp: boost_cell_def bind_r_eq_Inr setitem2_rows split: if_splits)

lemma demo_cell_rows:
  "demo_cell pol ts states i b tm = Inr tm' \<Longrightarrow> length (rows tm') = length (rows tm)"
  by (auto simp: demo_cell_def bind_r_eq_Inr setitem2_rows split: if_splits)

lemma boost_loop_rows:
  assumes "for_each is (\<lambda>i. for_each bs (boost_cell pol locs ts states i)) tm0 = Inr tm"
  shows "length (rows tm) = length (rows tm0)"
proof (rule for_each_preserve [OF assms, where Q = "\<lambda>k. length (rows k) = length (rows tm0)"])
  show "length (rows tm0) = length (rows tm0)" by simp
  show "length (rows k') = length (rows tm0)"
    if "for_each bs (boost_cell pol locs ts states x) k = Inr k'"
      "length (rows k) = length (rows tm0)" for x k k'
  proof (rule for_each_preserve [OF that(1), where Q = "\<lambda>k. length (rows k) = length (rows tm0)"])
    show "length (rows k) = length (rows tm0)" by (rule that(2))
    show "length (rows k2') = length (rows tm0)"
      if "boost_cell pol locs ts states x b k2 = Inr k2'" "length (rows k2) = length (rows tm0)"
      for b k2 k2'
      using boost_cell_rows [OF that(1)] that(2) by simp
  qed
qed

lemma demo_loop_rows:
  assumes "for_each is (\<lambda>i. for_each bs (demo_cell pol ts states i)) tm0 = Inr tm"
  shows "length (rows tm) = length (rows tm0)"
proof (rule for_each_preserve [OF assms, where Q = "\<lambda>k. length (rows k) = length (rows tm0)"])
  show "length (rows tm0) = length (rows tm0)" by simp
  show "length (rows k') = length (rows tm0)"
    if "for_each bs (demo_cell pol ts states x) k = Inr k'"
      "length (rows k) = length (rows tm0)" for x k k'
  proof (rule for_each_preserve [OF that(1), where Q = "\<lambda>k. length (rows k) = length (rows tm0)"])
    show "length (rows k) = length (rows tm0)" by (rule that(2))
    show "length (rows k2') = length (rows tm0)"
      if "demo_cell pol ts states x b k2 = Inr k2'" "length (rows k2) = length (rows tm0)"
      for b k2 k2'
      using demo_cell_rows [OF that(1)] that(2) by simp
  qed
qed

lemma update_timers_rows:
  assumes "update_timers pol bt locs dt ts bs ds = Inr (B, D)"
  shows "length (rows B) = shape0 bs" and "length (rows D) = shape0 ds"
proof -
  from assms obtain b0 b1 d0 d1 where
    b0: "setrow0 (zeros2 (shape0 bs + 1) (shape1 bs)) bt = Inr b0"
    and b1: "for_each [1..<shape0 b0]
               (\<lambda>i. for_each [0..<shape1 b0] (boost_cell pol locs ts bs i)) b0 = Inr b1"
    and d0: "setrow0 (zeros2 (shape0 ds + 1) (shape1 ds)) dt = Inr d0"
    and d1: "for_each [1..<shape0 d0]
               (\<lambda>i. for_each [0..<shape1 d0] (demo_cell pol ts ds i)) d0 = Inr d1"
    and B: "B = b1\<lparr>rows := drop 1 (rows b1)\<rparr>" and D: "D = d1\<lparr>rows := drop 1 (rows d1)\<rparr>"
    unfolding update_timers_def by (auto simp: bind_r_eq_Inr)
  from setrow0_rows [OF b0] boost_loop_rows [OF b1]
  show "length (rows B) = shape0 bs" by (simp add: B zeros2_def)
  from setrow0_rows [OF d0] demo_loop_rows [OF d1]
  show "length (rows D) = shape0 ds" by (simp add: D zeros2_def)
qed

lemma count_teams_surplus:
  assumes "2 \<le> a mod pl" and "pl \<noteq> 0"
  shows "(a - 1 + pl - 1) div pl = Suc (a div (pl::nat))"
proof -
  have lt: "a mod pl < pl" using assms(2) by simp
  have a: "a = (a div pl) * pl + a mod pl" by simp
  have "a - 1 + pl - 1 = Suc (a div pl) * pl + (a mod pl - 2)"
  proof -
    have a2: "2 \<le> a" using assms(1) mod_less_eq_dividend [of a pl] by linarith
    then have "a - 1 + pl - 1 = a + pl - 2" by simp
    also have "\<dots> = ((a div pl) * pl + a mod pl) + pl - 2" by simp
    also have "\<dots> = Suc (a div pl) * pl + (a mod pl - 2)" using assms(1) by simp
    finally show ?thesis .
  qed
  moreover have "a mod pl - 2 < pl" using lt by simp
  ultimately show ?thesis by (intro div_of_parts)
qed

lemma teams_length_surplus:
  assumes "rect es" "rows es \<noteq> []" "PLAYER_INFO_LENGTH L \<noteq> 0"
    "2 \<le> (shape1 es - players_start L) mod PLAYER_INFO_LENGTH L"
  shows "length (strided (rows es ! 0) (players_start L + 1) (PLAYER_INFO_LENGTH L))
           = Suc (player_count L es)"
proof -
  from count_teams_surplus [OF assms(4,3)]
  have "(shape1 es - players_start L - 1 + PLAYER_INFO_LENGTH L - 1) div PLAYER_INFO_LENGTH L
      = Suc (player_count L es)"
    by (simp add: player_count_def)
  then show ?thesis
    using assms(1,2) by (simp add: length_strided rect_row0)
qed

lemma after_timers_surplus:
  assumes "length (strided (rows es ! 0) (players_start L + 1) (PLAYER_INFO_LENGTH L))
           \<noteq> player_count L es"
  shows "\<exists>e. after_timers L self es bt dt = Inl e"
  using assms unfolding after_timers_def Let_def
  by (cases "for_each [0..<player_count L es]
        (player_step L es dt (capacity self (player_count L es) + 35))
        (base_rows (self_boost_locations self)
           (cols es (3 + BOOST_PADS_LENGTH L) (3 + BOOST_PADS_LENGTH L + 9)) bt
           (strided (rows es ! 0) (players_start L + 1) (PLAYER_INFO_LENGTH L))
           (player_count L es) (capacity self (player_count L es))
           (capacity self (player_count L es) + 35))") simp_all

lemma example_wide_rect: "rect example_wide"
  by (simp add: rect_def example_wide_def example_states_def example_player_def)

lemma example_wide_count: "player_count rlgym_layout example_wide = 2"
  by (simp add: player_count_def players_start_def rlgym_layout_def example_wide_def)

lemma example_wide_surplus:
  "(shape1 example_wide - players_start rlgym_layout) mod PLAYER_INFO_LENGTH rlgym_layout = 1"
  by (simp add: players_start_def rlgym_layout_def example_wide_def)

lemma example_wide_total:
  "\<exists>outs self'. batched_build_obs rlgym_layout (Unchecked example_memory) example_builder
       example_wide = Inr (outs, self') \<and> length outs = 2"
  using batched_build_obs_unchecked_total [OF rlgym_wf _ example_wide_rect,
      of example_builder example_memory]
  by (simp add: example_wide_count example_wide_surplus capacity_def example_builder_def)
    (simp add: players_start_def rlgym_layout_def example_wide_def example_states_def)

text \<open>
  C10 (a record width that does not match the layout makes the builder fail).  The builder
  never compares the width with a layout: it takes the number of players to be the number
  of whole player blocks after the ball block, rounding down, and goes on.  The example
  batch with one surplus column at the end of the record is accepted (under numba's
  unchecked reads, as every batch is), and two observations are returned.
\<close>

theorem surplus_column_is_accepted:
  "(shape1 example_wide - players_start rlgym_layout) mod PLAYER_INFO_LENGTH rlgym_layout = 1
   \<and> \<not> isl (batched_build_obs rlgym_layout (Unchecked example_memory) example_builder
              example_wide)
   \<and> length (obs_of (batched_build_obs rlgym_layout (Unchecked example_memory) example_builder
                example_wide)) = 2"
proof -
  from example_wide_total obtain outs self' where
    r: "batched_build_obs rlgym_layout (Unchecked example_memory) example_builder example_wide
          = Inr (outs, self')" and len: "length outs = 2"
    by blast
  show ?thesis
    unfolding r obs_of_def using len example_wide_surplus by simp
qed


text \<open>
  C10, amended.  The builder fails, whatever the bounds checking, when the record is
  narrower than the columns before the first player block, and when two or more columns
  are left after the last whole player block (the team numbers then do not fit the player
  rows); the error is returned to the caller, nothing catches it.
\<close>

theorem narrow_or_ragged_batch_fails:
  assumes rect: "rect es"
    and w: "shape1 es < players_start L
            \<or> 2 \<le> (shape1 es - players_start L) mod PLAYER_INFO_LENGTH L"
  shows "\<exists>e. batched_build_obs L pol self es = Inl e"
proof (cases "PLAYER_INFO_LENGTH L = 0")
  case True
  then show ?thesis by (simp add: batched_build_obs_unfold)
next
  case pl: False
  show ?thesis
  proof (cases "update_timers pol (self_boost_timers self) (self_boost_locations self)
               (self_demo_timers self) (self_tick_skip self) (cols es 3 (3 + 34))
               (cols_step es (players_start L + 33) (PLAYER_INFO_LENGTH L))")
    case (Inl e)
    then show ?thesis using pl by (simp add: batched_build_obs_unfold)
  next
    case (Inr v)
    obtain B D where v: "v = (B, D)" by (cases v)
    from update_timers_rows(1) [OF Inr [unfolded v]]
    have B: "length (rows B) = length (rows es)"
      by (simp add: shape0_def cols_def)
    show ?thesis
    proof (cases "rows es = [] \<or> rows D = [] \<or> shape1 es < players_start L")
      case True
      with B pl Inr v show ?thesis
        by (auto simp: batched_build_obs_unfold)
    next
      case False
      with w have sur: "2 \<le> (shape1 es - players_start L) mod PLAYER_INFO_LENGTH L"
        and ne: "rows es \<noteq> []" by simp_all
      from teams_length_surplus [OF rect ne pl sur]
      have "length (strided (rows es ! 0) (players_start L + 1) (PLAYER_INFO_LENGTH L))
           \<noteq> player_count L es" by simp
      from after_timers_surplus [OF this, of self B D] obtain e where
        "after_timers L self es B D = Inl e" by blast
      with False B pl Inr v show ?thesis
        by (auto simp: batched_build_obs_unfold)
    qed
  qed
qed


theorem narrow_or_ragged_batch_fails_witness:
  "rect example_ragged
   \<and> 2 \<le> (shape1 example_ragged - players_start rlgym_layout) mod PLAYER_INFO_LENGTH rlgym_layout
   \<and> (\<exists>e. batched_build_obs rlgym_layout (Unchecked example_memory) example_builder
              example_ragged = Inl e)"
proof -
  have rect: "rect example_ragged"
    by (simp add: rect_def example_ragged_def example_states_def example_player_def)
  have sur: "2 \<le> (shape1 example_ragged - players_start rlgym_layout)
      mod PLAYER_INFO_LENGTH rlgym_layout"
    by (simp add: players_start_def rlgym_layout_def example_ragged_def)
  from narrow_or_ragged_batch_fails [OF rect disjI2, OF sur] rect sur
  show ?thesis by blast
qed

section \<open>The legacy encoder and the batched builder\<close>

lemma old_norm_nth: "old_norm ! 0 = 1" "old_norm ! 3 = 1" "old_norm ! 5 = 2300"
  by (simp_all add: old_norm_def nth_append)

text \<open>The legacy encoder on the example, for the first player: the rows 0 and 1.\<close>

lemma example_old_rows:
  "\<exists>q kv m s. old_build_obs example_old_builder (state_players example_game_state ! 0)
       example_game_state (replicate 8 0) = Inr (Some (q, kv, m), s)
     \<and> kv 0 3 = 1 \<and> kv 0 0 = 0 \<and> kv 1 0 = 1 \<and> kv 1 5 = 0"
  by (simp add: old_build_obs_def old_maybe_update_obs_def old_timers_def
      example_old_builder_def example_game_state_def example_car_def Let_def bind_r_def
      old_norm_nth of_bool_real_def loc_z_def loc_component_def nth_append)

text \<open>
  C2 (the batched builder returns what the legacy encoder returns).  The claim: for the same
  ticks and player the two triples are equal, in row order, channel order, signs and values,
  apart from the relative-frame channels the batched builder appends; the source compares
  the two in its \<^verbatim>\<open>__main__\<close> block, under the comment
  \<^verbatim>\<open>FIXME ensure obs corresponds to old obs\<close>.  They are not equal.  The legacy
  encoder orders the entity rows ball, players, pads and makes the positions and velocities
  of all rows relative to the observer in place (channels 5 to 10); the batched builder
  orders them players, ball, pads and keeps the base channels absolute.  On the two-player
  example, both encoders with capacity six, for the first player (team 0, at x = 2300):
  the legacy encoder returns a triple whose row 0 is the ball (ball indicator 1, self
  indicator 0) and whose row 1 is the observer (self indicator 1, x channel 0); the batched
  builder returns two observations, and in the first row 0 is the observer (ball indicator
  0, self indicator 1, x channel 1) and row 6 is the ball.
\<close>

theorem legacy_and_batched_rows_differ:
  "old_returned (old_build_obs example_old_builder (state_players example_game_state ! 0)
       example_game_state (replicate 8 0))
   \<and> old_kv_of (old_build_obs example_old_builder (state_players example_game_state ! 0)
         example_game_state (replicate 8 0)) 0 3 = 1
   \<and> old_kv_of (old_build_obs example_old_builder (state_players example_game_state ! 0)
         example_game_state (replicate 8 0)) 0 0 = 0
   \<and> old_kv_of (old_build_obs example_old_builder (state_players example_game_state ! 0)
         example_game_state (replicate 8 0)) 1 0 = 1
   \<and> old_kv_of (old_build_obs example_old_builder (state_players example_game_state ! 0)
         example_game_state (replicate 8 0)) 1 5 = 0
   \<and> length (obs_of (batched_build_obs rlgym_layout (Unchecked example_memory)
         example_builder example_states)) = 2
   \<and> kv_of (obs_of (batched_build_obs rlgym_layout (Unchecked example_memory)
         example_builder example_states) ! 0) 0 0 3 = 0
   \<and> kv_of (obs_of (batched_build_obs rlgym_layout (Unchecked example_memory)
         example_builder example_states) ! 0) 0 0 0 = 1
   \<and> kv_of (obs_of (batched_build_obs rlgym_layout (Unchecked example_memory)
         example_builder example_states) ! 0) 0 0 5 = 1
   \<and> kv_of (obs_of (batched_build_obs rlgym_layout (Unchecked example_memory)
         example_builder example_states) ! 0) 0 6 3 = 1"
proof -
  from example_total obtain outs self' where
    r: "batched_build_obs rlgym_layout (Unchecked example_memory) example_builder example_states
          = Inr (outs, self')" and len: "length outs = 2"
    by blast
  have p: "0 < player_count rlgym_layout example_states"
    by (simp add: example_count)
  have t: "0 < shape0 example_states"
    by (simp add: example_ticks)
  note f = flags_of_observation [OF r p, unfolded One_nat_def]
  have k: "capacity example_builder 2 = 6"
    by (simp add: capacity_def example_builder_def)
  have three: "(0::nat) < 3" by simp
  from own_row_values(1) [OF r rlgym_wf example_rect p t three]
  have x: "kv_of (outs ! 0) 0 0 5 = 1"
    by (simp add: example_fields example_team0 mirror_def)
  from example_old_rows obtain q kv m s where
    o: "old_build_obs example_old_builder (state_players example_game_state ! 0)
          example_game_state (replicate 8 0) = Inr (Some (q, kv, m), s)"
    and v: "kv 0 3 = 1" "kv 0 0 = 0" "kv 1 0 = 1" "kv 1 5 = 0"
    by blast
  show ?thesis
    unfolding o r obs_of_def old_returned_def old_kv_of_def
    using len v x by (simp add: f example_count k)
qed

end
